theory Spec2Isabelle
  imports Main "HOL-Library.Word"
begin

section \<open>Python values and strings\<close>

text \<open>
  Short Python strings (version numbers, language codes, file names, messages) are
  modelled as \<open>string\<close>: a list of characters with code points below 256, on which the
  string methods used by the code are written out as Python defines them on that range.
  Document content, which comes out of a byte decoder and may hold any code point, is a
  list of code points (\<open>utext\<close>).
\<close>

type_synonym utext = "nat list"

type_synonym byte = "8 word"

text \<open>\<open>str.isspace\<close> on one character: TAB..CR, FS..US, space, NEL and NBSP.\<close>

definition is_space :: "char \<Rightarrow> bool" where
  "is_space c =
     (let n = (of_char c :: nat)
      in (9 \<le> n \<and> n \<le> 13) \<or> (28 \<le> n \<and> n \<le> 32) \<or> n = 133 \<or> n = 160)"

text \<open>\<open>str.strip()\<close>: whitespace removed at both ends.\<close>

definition strip :: "string \<Rightarrow> string" where
  "strip s = rev (dropWhile is_space (rev (dropWhile is_space s)))"

text \<open>\<open>str.lower()\<close> on one character: A..Z and the Latin-1 capitals (all of
  U+00C0..U+00DE but the multiplication sign) move up by 32.\<close>

definition lower_char :: "char \<Rightarrow> char" where
  "lower_char c =
     (let n = (of_char c :: nat)
      in if (65 \<le> n \<and> n \<le> 90) \<or> (192 \<le> n \<and> n \<le> 222 \<and> n \<noteq> 215)
         then char_of (n + 32) else c)"

definition lower :: "string \<Rightarrow> string" where
  "lower s = map lower_char s"

text \<open>\<open>s.replace(a, b)\<close> for a one-character \<open>a\<close>.\<close>

definition replace_char :: "char \<Rightarrow> string \<Rightarrow> string \<Rightarrow> string" where
  "replace_char a b s = concat (map (\<lambda>c. if c = a then b else [c]) s)"

text \<open>\<open>s.split(sep)\<close> for a one-character separator: never an empty list.\<close>

fun split_on :: "char \<Rightarrow> string \<Rightarrow> string list" where
  "split_on sep [] = [] # []"
| "split_on sep (c # cs) =
     (if c = sep then [] # split_on sep cs
      else (case split_on sep cs of
              [] \<Rightarrow> [c] # []
            | p # ps \<Rightarrow> (c # p) # ps))"

text \<open>\<open>sep.join(parts)\<close>.\<close>

fun join :: "'a list \<Rightarrow> 'a list list \<Rightarrow> 'a list" where
  "join sep [] = []"
| "join sep [p] = p"
| "join sep (p # q # ps) = p @ sep @ join sep (q # ps)"

text \<open>\<open>str.isdigit()\<close>: the string is not empty and every character is a digit; below
  256 these are 0..9 and the superscripts two, three and one.\<close>

definition is_ascii_digit :: "char \<Rightarrow> bool" where
  "is_ascii_digit c = (let n = (of_char c :: nat) in 48 \<le> n \<and> n \<le> 57)"

definition is_digit_char :: "char \<Rightarrow> bool" where
  "is_digit_char c =
     (let n = (of_char c :: nat) in (48 \<le> n \<and> n \<le> 57) \<or> n = 178 \<or> n = 179 \<or> n = 185)"

definition isdigit :: "string \<Rightarrow> bool" where
  "isdigit s = (s \<noteq> [] \<and> list_all is_digit_char s)"

text \<open>\<open>int(s)\<close> on a string that passed \<open>isdigit\<close>: the decimal value, or ValueError
  (\<open>None\<close>) when a character is a digit but not a decimal one.\<close>

definition digit_value :: "char \<Rightarrow> int" where
  "digit_value c = int (of_char c) - 48"

definition py_int :: "string \<Rightarrow> int option" where
  "py_int s =
     (if s \<noteq> [] \<and> list_all is_ascii_digit s
      then Some (foldl (\<lambda>a c. 10 * a + digit_value c) 0 s)
      else None)"

text \<open>\<open>str(n)\<close> and \<open>f"{n}"\<close> on an integer.\<close>

definition digit_char :: "nat \<Rightarrow> char" where
  "digit_char d = char_of (48 + d)"

function str_nat :: "nat \<Rightarrow> string" where
  "str_nat n = (if n < 10 then [digit_char n] else str_nat (n div 10) @ [digit_char (n mod 10)])"
  by pat_completeness auto
termination
  by (relation "measure id") auto

declare str_nat.simps [simp del]

definition str_int :: "int \<Rightarrow> string" where
  "str_int i = (if i < 0 then CHR ''-'' # str_nat (nat (- i)) else str_nat (nat i))"

text \<open>
  The JSON values a metadata object holds. Floats and nested containers are left out: the
  code only reads \<open>version\<close> and the upload provenance fields, and copies the rest.
\<close>

datatype jval = JNull | JBool bool | JInt int | JStr string

type_synonym metadata = "string \<rightharpoonup> jval"

text \<open>Python truthiness (\<open>not v\<close>, \<open>v or d\<close>) and \<open>str(v)\<close>.\<close>

fun truthy :: "jval \<Rightarrow> bool" where
  "truthy JNull = False"
| "truthy (JBool b) = b"
| "truthy (JInt i) = (i \<noteq> 0)"
| "truthy (JStr s) = (s \<noteq> [])"

fun py_str :: "jval \<Rightarrow> string" where
  "py_str JNull = ''None''"
| "py_str (JBool b) = (if b then ''True'' else ''False'')"
| "py_str (JInt i) = str_int i"
| "py_str (JStr s) = s"

section \<open>Version numbers (agent/api.py)\<close>

text \<open>
  \<open>_parse_version\<close>. The argument is whatever \<open>metadata.get("version")\<close> gave, \<open>JNull\<close>
  standing for \<open>None\<close>. The only statement of the \<open>try\<close> block that can raise is
  \<open>int(...)\<close>; the handler then returns \<open>(1, 0)\<close>.
\<close>

definition parse_version :: "jval \<Rightarrow> int \<times> int" where
  "parse_version v =
     (if \<not> truthy v then (1, 0)
      else
        let parts = split_on (CHR ''.'') (replace_char (CHR ''v'') [] (lower (strip (py_str v))))
        in case (if length parts > 0 \<and> isdigit (parts ! 0) then py_int (parts ! 0) else Some 1) of
             None \<Rightarrow> (1, 0)
           | Some major \<Rightarrow>
               (case (if length parts > 1 \<and> isdigit (parts ! 1) then py_int (parts ! 1) else Some 0) of
                  None \<Rightarrow> (1, 0)
                | Some minor \<Rightarrow> (major, minor)))"

text \<open>\<open>_bump_version\<close>.\<close>

definition bump_version :: "jval \<Rightarrow> string \<Rightarrow> string" where
  "bump_version current bump =
     (case parse_version current of
        (major, minor) \<Rightarrow>
          if bump = ''major'' then str_int (major + 1) @ ''.0''
          else str_int major @ ''.'' @ str_int (minor + 1))"








section \<open>Reading the uploaded file (agent/api.py, upload_new_version)\<close>

text \<open>
  \<open>bytes.decode("utf-8")\<close>: the strict decoder. A sequence that is truncated, has a wrong
  continuation byte, is overlong, encodes a surrogate or exceeds U+10FFFF raises
  UnicodeDecodeError (\<open>None\<close>).
\<close>

definition is_cont :: "byte \<Rightarrow> bool" where
  "is_cont b = (128 \<le> unat b \<and> unat b < 192)"

definition cont_bits :: "byte \<Rightarrow> nat" where
  "cont_bits b = unat b - 128"

fun decode_utf8 :: "byte list \<Rightarrow> utext option" where
  "decode_utf8 [] = Some []"
| "decode_utf8 (b # bs) =
     (let n = unat b in
      if n < 128 then map_option ((#) n) (decode_utf8 bs)
      else if 194 \<le> n \<and> n < 224 then
        (case bs of
           c1 # r \<Rightarrow>
             if is_cont c1
             then map_option ((#) ((n - 192) * 64 + cont_bits c1)) (decode_utf8 r)
             else None
         | _ \<Rightarrow> None)
      else if 224 \<le> n \<and> n < 240 then
        (case bs of
           c1 # c2 # r \<Rightarrow>
             (let cp = (n - 224) * 4096 + cont_bits c1 * 64 + cont_bits c2 in
              if is_cont c1 \<and> is_cont c2 \<and> 2048 \<le> cp \<and> \<not> (55296 \<le> cp \<and> cp < 57344)
              then map_option ((#) cp) (decode_utf8 r)
              else None)
         | _ \<Rightarrow> None)
      else if 240 \<le> n \<and> n < 245 then
        (case bs of
           c1 # c2 # c3 # r \<Rightarrow>
             (let cp = (n - 240) * 262144 + cont_bits c1 * 4096 + cont_bits c2 * 64 + cont_bits c3 in
              if is_cont c1 \<and> is_cont c2 \<and> is_cont c3 \<and> 65536 \<le> cp \<and> cp < 1114112
              then map_option ((#) cp) (decode_utf8 r)
              else None)
         | _ \<Rightarrow> None)
      else None)"

text \<open>
  A single-byte codec is a table from bytes to code points; \<open>errors="ignore"\<close> drops a
  byte without an entry, \<open>errors="strict"\<close> raises on it. Latin-1 maps every byte to the
  code point of the same number.
\<close>

fun decode_charmap :: "(byte \<Rightarrow> nat option) \<Rightarrow> bool \<Rightarrow> byte list \<Rightarrow> utext option" where
  "decode_charmap table ignore [] = Some []"
| "decode_charmap table ignore (b # bs) =
     (case table b of
        Some cp \<Rightarrow> map_option ((#) cp) (decode_charmap table ignore bs)
      | None \<Rightarrow> if ignore then decode_charmap table ignore bs else None)"

definition latin1 :: "byte \<Rightarrow> nat option" where
  "latin1 b = Some (unat b)"

datatype error = HTTPException nat string | Raised string

text \<open>
  The uploaded file: \<open>upload_read\<close> is what \<open>await file.read()\<close> does, the bytes or the
  message of the exception it raises.
\<close>

record upload_file =
  upload_filename :: "string option"
  upload_content_type :: "string option"
  upload_read :: "string + byte list"

text \<open>Lines 1713..1721: the outer \<open>try\<close> turns any exception into a 400, the inner one
  falls back from UTF-8 to Latin-1.\<close>

definition read_upload :: "upload_file \<Rightarrow> error + (byte list \<times> utext)" where
  "read_upload file =
     (case upload_read file of
        Inl msg \<Rightarrow> Inl (HTTPException 400 (''Failed to read file: '' @ msg))
      | Inr raw \<Rightarrow>
          (case decode_utf8 raw of
             Some new_content \<Rightarrow> Inr (raw, new_content)
           | None \<Rightarrow>
               (case decode_charmap latin1 True raw of
                  Some new_content \<Rightarrow> Inr (raw, new_content)
                | None \<Rightarrow> Inl (HTTPException 400 (''Failed to read file: '' @ ''UnicodeDecodeError'')))))"

section \<open>The store (documents, document_versions, chunks)\<close>

text \<open>
  A \<open>jsonb\<close> metadata column holds SQL NULL or a JSON object; the \<open>json.loads\<close> of the
  driver's text form and the \<open>json.dumps\<close> before a \<open>::jsonb\<close> cast are the two
  directions of one encoding and are not modelled. Rows of \<open>document_versions\<close> are only
  written by \<open>upload_new_version\<close>, which always passes a string for \<open>content\<close> and an
  object for \<open>metadata\<close>, so these two columns are not nullable here.
\<close>

record document =
  doc_title :: string
  doc_source :: "string option"
  doc_content :: "utext option"
  doc_metadata :: "metadata option"
  doc_updated_at :: nat

record version_row =
  ver_id :: string
  ver_document_id :: string
  ver_version :: string
  ver_change_summary :: string
  ver_content :: utext
  ver_metadata :: metadata
  ver_file_path :: jval
  ver_file_mime :: jval
  ver_file_size :: jval
  ver_created_by :: "string option"

text \<open>A chunk as the chunker and the embedder return it. Each component of the
  embedding is kept as \<open>str\<close> prints it, which is all the code does with it.\<close>

record chunk =
  chunk_content :: utext
  chunk_index :: int
  chunk_metadata :: metadata
  chunk_token_count :: "int option"
  chunk_embedding :: "string list option"

record chunk_row =
  cr_document_id :: string
  cr_content :: utext
  cr_embedding :: "string option"
  cr_chunk_index :: int
  cr_metadata :: metadata
  cr_token_count :: "int option"

record store =
  documents :: "string \<rightharpoonup> document"
  versions :: "version_row list"
  chunks :: "chunk_row list"

text \<open>
  The statements the three endpoints send, in the order of the source. A statement
  that fails (the database rejects it, an identifier does not parse as a \<open>uuid\<close>, the
  connection drops) raises and leaves the store as it was. That PostgreSQL also refuses
  every later statement of a transaction in which one has failed is not modelled: after
  a failure that the Python catches, the model goes on as the Python reads.
\<close>

datatype stmt =
    SelectDocument
  | SelectVersionExists
  | InsertBaseline
  | DeleteChunks
  | InsertChunk nat
  | InsertVersion
  | UpdateDocument
  | SelectVersion
  | SelectContent

text \<open>
  What the endpoints take from outside: the chunker and the embedder (\<open>Inl\<close> is the
  message of the exception raised), the statements that the database rejects or that
  fail on the connection (\<open>fault\<close>, with the message), the identifier the database gives
  to the n-th row of \<open>document_versions\<close>, the transaction's timestamp, and
  \<open>difflib.unified_diff\<close>.
\<close>

record env =
  chunk_document :: "utext \<Rightarrow> string \<Rightarrow> string \<Rightarrow> metadata \<Rightarrow> string + chunk list"
  embed_chunks :: "chunk list \<Rightarrow> string + chunk list"
  fault :: "stmt \<Rightarrow> string option"
  new_id :: "nat \<Rightarrow> string"
  now :: nat
  unified_diff :: "utext list \<Rightarrow> utext list \<Rightarrow> string \<Rightarrow> string \<Rightarrow> utext list"

text \<open>\<open>async with conn.transaction()\<close>: the body's writes are kept when it returns and
  undone when it raises. The body returns the store as it stands at the point of return
  or raise.\<close>

definition transaction :: "(store \<Rightarrow> (error + 'a) \<times> store) \<Rightarrow> store \<Rightarrow> (error + 'a) \<times> store" where
  "transaction body st =
     (case body st of
        (Inl e, _) \<Rightarrow> (Inl e, st)
      | (Inr r, st') \<Rightarrow> (Inr r, st'))"

text \<open>\<open>_get_document_core\<close>.\<close>

definition get_document_core :: "env \<Rightarrow> string \<Rightarrow> store \<Rightarrow> error + document option" where
  "get_document_core e document_id st =
     (case fault e SelectDocument of
        Some msg \<Rightarrow> Inl (Raised msg)
      | None \<Rightarrow> Inr (documents st document_id))"

text \<open>\<open>SELECT 1 FROM document_versions WHERE document_id=$1 AND version=$2 LIMIT 1\<close>.\<close>

definition select_version_exists :: "env \<Rightarrow> string \<Rightarrow> string \<Rightarrow> store \<Rightarrow> error + bool" where
  "select_version_exists e document_id ver st =
     (case fault e SelectVersionExists of
        Some msg \<Rightarrow> Inl (Raised msg)
      | None \<Rightarrow>
          Inr (list_ex (\<lambda>r. ver_document_id r = document_id \<and> ver_version r = ver) (versions st)))"

text \<open>\<open>INSERT INTO document_versions\<close>: the row is appended under a new identifier.\<close>

definition insert_version :: "env \<Rightarrow> stmt \<Rightarrow> version_row \<Rightarrow> store \<Rightarrow> error + store" where
  "insert_version e s row st =
     (case fault e s of
        Some msg \<Rightarrow> Inl (Raised msg)
      | None \<Rightarrow>
          Inr (st\<lparr>versions := versions st @ [row\<lparr>ver_id := new_id e (length (versions st))\<rparr>]\<rparr>))"

text \<open>\<open>DELETE FROM chunks WHERE document_id = $1\<close>.\<close>

definition delete_chunks :: "env \<Rightarrow> string \<Rightarrow> store \<Rightarrow> error + store" where
  "delete_chunks e document_id st =
     (case fault e DeleteChunks of
        Some msg \<Rightarrow> Inl (Raised msg)
      | None \<Rightarrow> Inr (st\<lparr>chunks := filter (\<lambda>r. cr_document_id r \<noteq> document_id) (chunks st)\<rparr>))"

text \<open>The body of the \<open>for ch in embedded_chunks\<close> loop: the embedding is written as
  \<open>[x1,x2,...]\<close> when it is there and not empty, and as NULL otherwise.\<close>

definition embedding_data :: "chunk \<Rightarrow> string option" where
  "embedding_data ch =
     (case chunk_embedding ch of
        None \<Rightarrow> None
      | Some xs \<Rightarrow> if xs = [] then None else Some (''['' @ join '','' xs @ '']''))"

definition chunk_row_of :: "string \<Rightarrow> chunk \<Rightarrow> chunk_row" where
  "chunk_row_of document_id ch =
     \<lparr>cr_document_id = document_id,
      cr_content = chunk_content ch,
      cr_embedding = embedding_data ch,
      cr_chunk_index = chunk_index ch,
      cr_metadata = chunk_metadata ch,
      cr_token_count = chunk_token_count ch\<rparr>"

fun insert_chunks :: "env \<Rightarrow> string \<Rightarrow> nat \<Rightarrow> chunk list \<Rightarrow> store \<Rightarrow> (error + unit) \<times> store" where
  "insert_chunks e document_id i [] st = (Inr (), st)"
| "insert_chunks e document_id i (ch # chs) st =
     (case fault e (InsertChunk i) of
        Some msg \<Rightarrow> (Inl (Raised msg), st)
      | None \<Rightarrow>
          insert_chunks e document_id (Suc i) chs
            (st\<lparr>chunks := chunks st @ [chunk_row_of document_id ch]\<rparr>))"

text \<open>\<open>UPDATE documents SET content = $2, metadata = $3, updated_at = CURRENT_TIMESTAMP
  WHERE id = $1\<close>.\<close>

definition update_document :: "env \<Rightarrow> string \<Rightarrow> utext \<Rightarrow> metadata \<Rightarrow> store \<Rightarrow> error + store" where
  "update_document e document_id content meta st =
     (case fault e UpdateDocument of
        Some msg \<Rightarrow> Inl (Raised msg)
      | None \<Rightarrow>
          Inr (st\<lparr>documents :=
                 (case documents st document_id of
                    None \<Rightarrow> documents st
                  | Some d \<Rightarrow>
                      (documents st)(document_id \<mapsto>
                         d\<lparr>doc_content := Some content,
                           doc_metadata := Some meta,
                           doc_updated_at := now e\<rparr>))\<rparr>))"

text \<open>The chunk, embed and replace steps that \<open>upload_new_version\<close> (lines 1792..1820)
  and \<open>rollback_version\<close> (lines 2028..2056) both run.\<close>

definition replace_chunks ::
  "env \<Rightarrow> string \<Rightarrow> utext \<Rightarrow> string \<Rightarrow> string \<Rightarrow> metadata \<Rightarrow> store \<Rightarrow> (error + unit) \<times> store" where
  "replace_chunks e document_id content title source meta st =
     (case chunk_document e content title source meta of
        Inl msg \<Rightarrow> (Inl (Raised msg), st)
      | Inr chs \<Rightarrow>
          (case embed_chunks e chs of
             Inl msg \<Rightarrow> (Inl (Raised msg), st)
           | Inr embedded_chunks \<Rightarrow>
               (case delete_chunks e document_id st of
                  Inl err \<Rightarrow> (Inl err, st)
                | Inr st1 \<Rightarrow> insert_chunks e document_id 0 embedded_chunks st1)))"

section \<open>upload_new_version (agent/api.py)\<close>

text \<open>\<open>meta or {}\<close>, \<open>meta.get(key)\<close> and a Python \<open>Optional[str]\<close> as a JSON value.\<close>

definition meta_or_empty :: "metadata option \<Rightarrow> metadata" where
  "meta_or_empty meta = (case meta of None \<Rightarrow> Map.empty | Some m \<Rightarrow> m)"

definition meta_get :: "metadata \<Rightarrow> string \<Rightarrow> jval" where
  "meta_get m k = (case m k of None \<Rightarrow> JNull | Some v \<Rightarrow> v)"

definition jstr_opt :: "string option \<Rightarrow> jval" where
  "jstr_opt s = (case s of None \<Rightarrow> JNull | Some t \<Rightarrow> JStr t)"

text \<open>Line 1749: \<open>current_version if (isinstance(current_version, str) and
  str(current_version).strip()) else "1.0"\<close>.\<close>

fun prev_version :: "jval \<Rightarrow> string" where
  "prev_version (JStr s) = (if strip s \<noteq> [] then s else ''1.0'')"
| "prev_version v = ''1.0''"

text \<open>
  Lines 1748..1776, the \<open>try\<close> block that makes sure the pre-update state is in the
  history. \<open>baseline_row\<close> is the row of its INSERT (the database fills in the
  identifier). The block gives back \<open>current_version\<close> and the store; an exception of
  either statement is caught, logged and dropped.
\<close>

definition baseline_row :: "string \<Rightarrow> string option \<Rightarrow> document \<Rightarrow> string \<Rightarrow> version_row" where
  "baseline_row document_id created_by doc prev_ver =
     (let meta = meta_or_empty (doc_metadata doc)
      in \<lparr>ver_id = [],
          ver_document_id = document_id,
          ver_version = prev_ver,
          ver_change_summary = ''Initial version snapshot'',
          ver_content = (case doc_content doc of None \<Rightarrow> [] | Some c \<Rightarrow> c),
          ver_metadata = meta,
          ver_file_path = meta_get meta ''file_path'',
          ver_file_mime = meta_get meta ''last_upload_mime'',
          ver_file_size = meta_get meta ''file_size'',
          ver_created_by = created_by\<rparr>)"

definition ensure_baseline ::
  "env \<Rightarrow> string \<Rightarrow> string option \<Rightarrow> document \<Rightarrow> jval \<Rightarrow> store \<Rightarrow> jval \<times> store" where
  "ensure_baseline e document_id created_by doc current_version st =
     (let prev_ver = prev_version current_version
      in case select_version_exists e document_id prev_ver st of
           Inl err \<Rightarrow> (current_version, st)
         | Inr True \<Rightarrow> (current_version, st)
         | Inr False \<Rightarrow>
             (case insert_version e InsertBaseline
                     (baseline_row document_id created_by doc prev_ver) st of
                Inl err \<Rightarrow> (current_version, st)
              | Inr st' \<Rightarrow>
                  (if \<not> truthy current_version then JStr prev_ver else current_version, st')))"

text \<open>Line 1777: \<open>version.strip() if isinstance(version, str) and version.strip() else
  _bump_version(current_version, bump)\<close>.\<close>

definition next_version :: "string option \<Rightarrow> jval \<Rightarrow> string \<Rightarrow> string" where
  "next_version version current_version bump =
     (case version of
        None \<Rightarrow> bump_version current_version bump
      | Some v \<Rightarrow> if strip v \<noteq> [] then strip v else bump_version current_version bump)"

text \<open>Lines 1780..1790: the copy of the metadata with the new version and, when the
  upload has a file name, its provenance.\<close>

definition build_metadata :: "metadata \<Rightarrow> string \<Rightarrow> upload_file \<Rightarrow> byte list \<Rightarrow> metadata" where
  "build_metadata meta new_version file raw =
     (let m = meta(''version'' \<mapsto> JStr new_version)
      in case upload_filename file of
           None \<Rightarrow> m
         | Some fn \<Rightarrow>
             if fn = [] then m
             else m(''last_upload_filename'' \<mapsto> JStr fn,
                    ''last_upload_mime'' \<mapsto> jstr_opt (upload_content_type file),
                    ''file_path'' \<mapsto> JStr fn,
                    ''file_size'' \<mapsto> JInt (int (length raw))))"

text \<open>Line 1794: \<open>doc["source"] or (file.filename if file and file.filename else
  "uploaded")\<close>.\<close>

definition upload_source :: "document \<Rightarrow> upload_file \<Rightarrow> string" where
  "upload_source doc file =
     (case doc_source doc of
        Some s \<Rightarrow> if s \<noteq> [] then s
                  else (case upload_filename file of
                          Some fn \<Rightarrow> if fn \<noteq> [] then fn else ''uploaded''
                        | None \<Rightarrow> ''uploaded'')
      | None \<Rightarrow> (case upload_filename file of
                   Some fn \<Rightarrow> if fn \<noteq> [] then fn else ''uploaded''
                 | None \<Rightarrow> ''uploaded''))"

text \<open>The row of the new version (lines 1823..1841).\<close>

definition new_version_row ::
  "string \<Rightarrow> string option \<Rightarrow> upload_file \<Rightarrow> byte list \<Rightarrow> utext \<Rightarrow> string \<Rightarrow> string \<Rightarrow> metadata
     \<Rightarrow> version_row" where
  "new_version_row document_id created_by file raw new_content change_summary new_version new_metadata =
     \<lparr>ver_id = [],
      ver_document_id = document_id,
      ver_version = new_version,
      ver_change_summary = change_summary,
      ver_content = new_content,
      ver_metadata = new_metadata,
      ver_file_path = jstr_opt (upload_filename file),
      ver_file_mime = jstr_opt (upload_content_type file),
      ver_file_size = JInt (int (length raw)),
      ver_created_by = created_by\<rparr>"

text \<open>The body of the transaction (lines 1734..1855). It returns the new version.\<close>

definition upload_body ::
  "env \<Rightarrow> string \<Rightarrow> string option \<Rightarrow> upload_file \<Rightarrow> byte list \<Rightarrow> utext \<Rightarrow> string \<Rightarrow> string
     \<Rightarrow> string option \<Rightarrow> store \<Rightarrow> (error + string) \<times> store" where
  "upload_body e document_id created_by file raw new_content change_summary bump version st =
     (case get_document_core e document_id st of
        Inl err \<Rightarrow> (Inl err, st)
      | Inr None \<Rightarrow> (Inl (HTTPException 404 ''Document not found''), st)
      | Inr (Some doc) \<Rightarrow>
          (let meta = meta_or_empty (doc_metadata doc);
               current_version0 = meta_get meta ''version''
           in case ensure_baseline e document_id created_by doc current_version0 st of
                (current_version, st1) \<Rightarrow>
                  (let new_version = next_version version current_version bump;
                       new_metadata = build_metadata meta new_version file raw
                   in case replace_chunks e document_id new_content (doc_title doc)
                             (upload_source doc file) new_metadata st1 of
                        (Inl err, st2) \<Rightarrow> (Inl err, st2)
                      | (Inr u, st2) \<Rightarrow>
                          (case insert_version e InsertVersion
                                  (new_version_row document_id created_by file raw new_content
                                     change_summary new_version new_metadata) st2 of
                             Inl err \<Rightarrow> (Inl err, st2)
                           | Inr st3 \<Rightarrow>
                               (case update_document e document_id new_content new_metadata st3 of
                                  Inl err \<Rightarrow> (Inl err, st3)
                                | Inr st4 \<Rightarrow> (Inr new_version, st4))))))"

text \<open>
  \<open>upload_new_version\<close>. \<open>created_by\<close> is what \<open>_resolve_user_id_from_request\<close> found
  for the request. The result is the \<open>version\<close> of the response.
\<close>

definition upload_new_version ::
  "env \<Rightarrow> string \<Rightarrow> string option \<Rightarrow> upload_file \<Rightarrow> string \<Rightarrow> string \<Rightarrow> string option
     \<Rightarrow> store \<Rightarrow> (error + string) \<times> store" where
  "upload_new_version e document_id created_by file change_summary bump version st =
     (if change_summary = [] \<or> strip change_summary = []
      then (Inl (HTTPException 400 ''change_summary is required''), st)
      else case read_upload file of
             Inl err \<Rightarrow> (Inl err, st)
           | Inr (raw, new_content) \<Rightarrow>
               transaction
                 (upload_body e document_id created_by file raw new_content change_summary bump version)
                 st)"

section \<open>rollback_version (agent/api.py)\<close>

text \<open>\<open>SELECT ... FROM document_versions WHERE document_id=$1 AND id=$2\<close>, one row.\<close>

definition select_version :: "env \<Rightarrow> stmt \<Rightarrow> string \<Rightarrow> string \<Rightarrow> store \<Rightarrow> error + version_row option" where
  "select_version e s document_id version_id st =
     (case fault e s of
        Some msg \<Rightarrow> Inl (Raised msg)
      | None \<Rightarrow>
          Inr (find (\<lambda>r. ver_document_id r = document_id \<and> ver_id r = version_id) (versions st)))"

definition rollback_body :: "env \<Rightarrow> string \<Rightarrow> string \<Rightarrow> store \<Rightarrow> (error + string) \<times> store" where
  "rollback_body e document_id version_id st =
     (case select_version e SelectVersion document_id version_id st of
        Inl err \<Rightarrow> (Inl err, st)
      | Inr None \<Rightarrow> (Inl (HTTPException 404 ''Version not found''), st)
      | Inr (Some ver) \<Rightarrow>
          (let old_content = (if ver_content ver \<noteq> [] then ver_content ver else []);
               old_meta = ver_metadata ver
           in case get_document_core e document_id st of
                Inl err \<Rightarrow> (Inl err, st)
              | Inr None \<Rightarrow> (Inl (HTTPException 404 ''Document not found''), st)
              | Inr (Some doc) \<Rightarrow>
                  (let new_metadata = old_meta;
                       source = (case doc_source doc of
                                   Some s \<Rightarrow> if s \<noteq> [] then s else ''rollback''
                                 | None \<Rightarrow> ''rollback'')
                   in case replace_chunks e document_id old_content (doc_title doc) source
                             new_metadata st of
                        (Inl err, st2) \<Rightarrow> (Inl err, st2)
                      | (Inr u, st2) \<Rightarrow>
                          (case update_document e document_id old_content new_metadata st2 of
                             Inl err \<Rightarrow> (Inl err, st2)
                           | Inr st3 \<Rightarrow> (Inr (ver_version ver), st3)))))"

definition rollback_version :: "env \<Rightarrow> string \<Rightarrow> string \<Rightarrow> store \<Rightarrow> (error + string) \<times> store" where
  "rollback_version e document_id version_id st =
     transaction (rollback_body e document_id version_id) st"

section \<open>compare_versions (agent/api.py)\<close>

record compare_request =
  left_version_id :: "string option"
  right_version_id :: "string option"
  left :: "string option"
  right :: "string option"

text \<open>\<open>a or b\<close> on optional strings: \<open>None\<close> and the empty string are false.\<close>

definition str_or :: "string option \<Rightarrow> string option \<Rightarrow> string option" where
  "str_or a b = (case a of None \<Rightarrow> b | Some s \<Rightarrow> if s = [] then b else Some s)"

text \<open>\<open>str.splitlines(keepends=True)\<close> on code points: a line ends after LF, VT, FF, CR
  (CR LF counts once), FS, GS, RS, NEL, LS or PS.\<close>

definition is_linebreak :: "nat \<Rightarrow> bool" where
  "is_linebreak c =
     (c = 10 \<or> c = 11 \<or> c = 12 \<or> c = 13 \<or> c = 28 \<or> c = 29 \<or> c = 30 \<or> c = 133 \<or> c = 8232 \<or> c = 8233)"

fun splitlines_from :: "utext \<Rightarrow> utext \<Rightarrow> utext list" where
  "splitlines_from cur [] = (if cur = [] then [] else [cur])"
| "splitlines_from cur (c # cs) =
     (if c = 13 then
        (case cs of
           [] \<Rightarrow> [cur @ [c]]
         | d # r \<Rightarrow>
             if d = 10 then (cur @ [c, d]) # splitlines_from [] r
             else (cur @ [c]) # splitlines_from [] cs)
      else if is_linebreak c then (cur @ [c]) # splitlines_from [] cs
      else splitlines_from (cur @ [c]) cs)"

definition splitlines_keepends :: "utext \<Rightarrow> utext list" where
  "splitlines_keepends s = splitlines_from [] s"

text \<open>The inner function \<open>get_content\<close>.\<close>

definition get_content :: "env \<Rightarrow> string \<Rightarrow> string option \<Rightarrow> store \<Rightarrow> error + utext" where
  "get_content e document_id selector st =
     (case selector of
        None \<Rightarrow> Inr []
      | Some sel \<Rightarrow>
          if sel = [] then Inr []
          else if sel = ''current'' then
            (case fault e SelectContent of
               Some msg \<Rightarrow> Inl (Raised msg)
             | None \<Rightarrow>
                 Inr (case documents st document_id of
                        None \<Rightarrow> []
                      | Some d \<Rightarrow> (case doc_content d of None \<Rightarrow> [] | Some c \<Rightarrow> c)))
          else
            (case select_version e SelectContent document_id sel st of
               Inl err \<Rightarrow> Inl err
             | Inr None \<Rightarrow> Inr []
             | Inr (Some row) \<Rightarrow> Inr (ver_content row)))"

text \<open>The handlers at the end of \<open>compare_versions\<close>: an HTTPException goes through,
  anything else becomes a 500 with the exception's message.\<close>

fun to_http :: "error \<Rightarrow> error" where
  "to_http (HTTPException code detail) = HTTPException code detail"
| "to_http (Raised msg) = HTTPException 500 msg"

definition compare_versions :: "env \<Rightarrow> string \<Rightarrow> compare_request \<Rightarrow> store \<Rightarrow> error + utext" where
  "compare_versions e document_id payload st =
     (let left_sel = str_or (str_or (left payload) (left_version_id payload)) (Some ''current'');
          right_sel = str_or (right payload) (right_version_id payload)
      in case right_sel of
           None \<Rightarrow> Inl (HTTPException 400 ''right version is required'')
         | Some rs \<Rightarrow>
             if rs = [] then Inl (HTTPException 400 ''right version is required'')
             else
               (case get_content e document_id left_sel st of
                  Inl err \<Rightarrow> Inl (to_http err)
                | Inr left_content \<Rightarrow>
                    (case get_content e document_id right_sel st of
                       Inl err \<Rightarrow> Inl (to_http err)
                     | Inr right_content \<Rightarrow>
                         Inr (concat
                                (unified_diff e
                                   (splitlines_keepends left_content)
                                   (splitlines_keepends right_content)
                                   (case left_sel of None \<Rightarrow> ''None'' | Some l \<Rightarrow> l)
                                   rs)))))"

section \<open>Text extraction (ingestion/ocr.py)\<close>

text \<open>
  A path is its text and the suffix \<open>pathlib\<close> finds in it. An image is named by the
  file or page it came from and has a colour mode.
\<close>

record path =
  path_str :: string
  path_suffix :: string

record image =
  img_name :: string
  img_mode :: string

datatype ocr_error = FileNotFoundError string | OCRError string | OtherError string

text \<open>What one call of \<open>pytesseract.image_to_string\<close> does: it returns the text, or
  raises TesseractNotFoundError, TesseractError (with its message) or something else.\<close>

datatype tess_outcome =
    TessText string
  | TessNotFound
  | TessFailed string
  | TessRaised string

text \<open>One extracted page of a PDF: \<open>page.extract_text()\<close> raises, or returns \<open>None\<close>
  or a string.\<close>

type_synonym pdf_page = "string + string option"

text \<open>
  The libraries and the settings the module is loaded with. An optional library that is
  not installed is \<open>None\<close> (or \<open>False\<close>). \<open>PdfReader\<close> stands for opening the file and
  listing its pages, \<open>Inl\<close> being any exception on the way.
\<close>

record ocr_env =
  pytesseract_present :: bool
  pillow_present :: bool
  convert_from_path :: "(path \<Rightarrow> nat \<Rightarrow> string + image list) option"
  PdfReader :: "(path \<Rightarrow> string + pdf_page list) option"
  image_to_string :: "image \<Rightarrow> string \<Rightarrow> string option \<Rightarrow> tess_outcome"
  image_open :: "path \<Rightarrow> string + image"
  path_exists :: "path \<Rightarrow> bool"
  DEFAULT_LANG :: string
  FALLBACK_LANG :: string
  TESS_CONFIG :: string
  PDF_DPI :: nat

text \<open>The calls that leave the module, in the order they are made.\<close>

datatype ocr_event =
    Rasterized path
  | Recognized image string
  | Closed image

datatype mval = MStr string | MBool bool | MInt int | MList "string list"

record ocr_result =
  ocr_text :: string
  ocr_metadata :: "string \<rightharpoonup> mval"

definition SUPPORTED_IMAGE_EXTENSIONS :: "string list" where
  "SUPPORTED_IMAGE_EXTENSIONS = [''.png'', ''.jpg'', ''.jpeg'', ''.tif'', ''.tiff'', ''.bmp'', ''.gif'']"

definition SUPPORTED_PDF_EXTENSIONS :: "string list" where
  "SUPPORTED_PDF_EXTENSIONS = [''.pdf'']"

definition SUPPORTED_EXTENSIONS :: "string list" where
  "SUPPORTED_EXTENSIONS = SUPPORTED_IMAGE_EXTENSIONS @ SUPPORTED_PDF_EXTENSIONS"

text \<open>\<open>_split_languages\<close>.\<close>

definition split_languages :: "string \<Rightarrow> string list" where
  "split_languages spec =
     (if spec = [] then []
      else map strip
             (filter (\<lambda>token. strip token \<noteq> [])
                (split_on (CHR '','') (replace_char (CHR '';'') '','' spec))))"

text \<open>\<open>_resolve_language_attempts\<close>.\<close>

fun append_fallbacks :: "string list \<Rightarrow> string list \<Rightarrow> string list" where
  "append_fallbacks attempts [] = attempts"
| "append_fallbacks attempts (fallback # rest) =
     (if fallback \<noteq> [] \<and> fallback \<notin> set attempts
      then append_fallbacks (attempts @ [fallback]) rest
      else append_fallbacks attempts rest)"

definition resolve_language_attempts :: "ocr_env \<Rightarrow> string option \<Rightarrow> string list" where
  "resolve_language_attempts e languages =
     (let attempts =
            split_languages
              (case languages of
                 None \<Rightarrow> DEFAULT_LANG e
               | Some l \<Rightarrow> if l \<noteq> [] then l else DEFAULT_LANG e);
          attempts' = append_fallbacks attempts (split_languages (FALLBACK_LANG e))
      in if attempts' = [] then [''eng''] else attempts')"

text \<open>\<open>_dedupe_preserve_order\<close>.\<close>

fun dedupe_from :: "string list \<Rightarrow> string list \<Rightarrow> string list" where
  "dedupe_from seen [] = []"
| "dedupe_from seen (item # items) =
     (if item \<noteq> [] \<and> item \<notin> set seen
      then item # dedupe_from (item # seen) items
      else dedupe_from seen items)"

definition dedupe_preserve_order :: "string list \<Rightarrow> string list" where
  "dedupe_preserve_order items = dedupe_from [] items"

text \<open>\<open>_ensure_dependencies\<close>: the error it raises, if any.\<close>

definition ensure_dependencies :: "ocr_env \<Rightarrow> path \<Rightarrow> ocr_error option" where
  "ensure_dependencies e p =
     (let suffix = lower (path_suffix p)
      in if \<not> pillow_present e
         then Some (OCRError ''Pillow is required for OCR but is not installed.'')
         else if suffix \<in> set SUPPORTED_EXTENSIONS \<and> \<not> pytesseract_present e
         then Some (OCRError ''pytesseract is required for OCR but is not installed.'')
         else if suffix \<in> set SUPPORTED_PDF_EXTENSIONS \<and> convert_from_path e = None \<and> PdfReader e = None
         then Some (OCRError (''PDF OCR requested but neither pdf2image nor pypdf is available. Install ''
                @ ''pdf2image (for raster OCR) and/or pypdf (for direct text extraction).''))
         else None)"

text \<open>
  Three expressions of \<open>_run_tesseract\<close>: the image handed to the recognizer (line
  184), the \<open>config\<close> keyword argument (lines 187..189, absent when the setting is
  empty) and the message kept for a language that failed (line 199).
\<close>

definition prepare :: "image \<Rightarrow> image" where
  "prepare img = (if img_mode img \<notin> {''L'', ''RGB''} then img\<lparr>img_mode := ''RGB''\<rparr> else img)"

definition tess_config :: "ocr_env \<Rightarrow> string option" where
  "tess_config e = (if TESS_CONFIG e \<noteq> [] then Some (TESS_CONFIG e) else None)"

definition error_msg :: "string \<Rightarrow> string \<Rightarrow> string" where
  "error_msg lang exc =
     (if lang \<noteq> [] then ''lang='' @ [CHR 0x27] @ lang @ [CHR 0x27] @ '' -> '' @ exc else exc)"

text \<open>
  The loop of \<open>_run_tesseract\<close> over the candidates still to try, with the error messages
  collected so far. It returns the result and the recognizer calls it made.
\<close>

fun tesseract_loop ::
  "ocr_env \<Rightarrow> image \<Rightarrow> string list \<Rightarrow> string list \<Rightarrow> (ocr_error + string \<times> string) \<times> ocr_event list" where
  "tesseract_loop e prepared errors [] =
     (Inl (OCRError (''Tesseract failed for all language candidates: '' @ join ''; '' errors)), [])"
| "tesseract_loop e prepared errors (lang # rest) =
     (case image_to_string e prepared lang (tess_config e) of
        TessText t \<Rightarrow> (Inr (strip t, lang), [Recognized prepared lang])
      | TessNotFound \<Rightarrow>
          (Inl (OCRError (''Tesseract binary not found. Ensure Tesseract OCR is installed and ''
             @ ''available on PATH.'')), [Recognized prepared lang])
      | TessFailed exc \<Rightarrow>
          (case tesseract_loop e prepared (errors @ [error_msg lang exc]) rest of
             (res, evs) \<Rightarrow> (res, Recognized prepared lang # evs))
      | TessRaised exc \<Rightarrow> (Inl (OtherError exc), [Recognized prepared lang]))"

text \<open>\<open>_run_tesseract\<close>.\<close>

definition run_tesseract ::
  "ocr_env \<Rightarrow> image \<Rightarrow> string list \<Rightarrow> (ocr_error + string \<times> string) \<times> ocr_event list" where
  "run_tesseract e img candidates =
     (if \<not> pytesseract_present e
      then (Inl (OCRError ''pytesseract is not installed. Please add pytesseract to requirements.''), [])
      else tesseract_loop e (prepare img) [] candidates)"

text \<open>\<open>_extract_from_image\<close>. The \<open>with\<close> statement closes the image on every way out.\<close>

definition extract_from_image ::
  "ocr_env \<Rightarrow> path \<Rightarrow> string option \<Rightarrow> (ocr_error + ocr_result) \<times> ocr_event list" where
  "extract_from_image e p languages =
     (let candidates = resolve_language_attempts e languages
      in case image_open e p of
           Inl msg \<Rightarrow> (Inl (OtherError msg), [])
         | Inr img \<Rightarrow>
             (case run_tesseract e img candidates of
                (Inl err, evs) \<Rightarrow> (Inl err, evs @ [Closed img])
              | (Inr (txt, used_lang), evs) \<Rightarrow>
                  (Inr \<lparr>ocr_text = txt,
                        ocr_metadata =
                          [''engine'' \<mapsto> MStr ''tesseract'',
                           ''source'' \<mapsto> MStr ''image'',
                           ''languages'' \<mapsto> MStr used_lang,
                           ''used_ocr'' \<mapsto> MBool True]\<rparr>,
                   evs @ [Closed img])))"

text \<open>Step 1 of \<open>_extract_from_pdf\<close>: the text of the pages that have some, stripped.\<close>

fun direct_chunks :: "pdf_page list \<Rightarrow> string list" where
  "direct_chunks [] = []"
| "direct_chunks (page # pages) =
     (let chunk = (case page of
                     Inl exc \<Rightarrow> []
                   | Inr None \<Rightarrow> []
                   | Inr (Some t) \<Rightarrow> t)
      in if strip chunk \<noteq> [] then strip chunk # direct_chunks pages else direct_chunks pages)"

definition direct_pdf_text :: "ocr_env \<Rightarrow> path \<Rightarrow> ocr_result option" where
  "direct_pdf_text e p =
     (case PdfReader e of
        None \<Rightarrow> None
      | Some reader \<Rightarrow>
          (case reader p of
             Inl exc \<Rightarrow> None
           | Inr pages \<Rightarrow>
               (let direct_text = strip (join [CHR 0x0A, CHR 0x0A] (direct_chunks pages))
                in if direct_text \<noteq> []
                   then Some \<lparr>ocr_text = direct_text,
                              ocr_metadata =
                                [''engine'' \<mapsto> MStr ''pypdf'',
                                 ''source'' \<mapsto> MStr ''pdf_text'',
                                 ''page_count'' \<mapsto> MInt (int (length pages)),
                                 ''used_ocr'' \<mapsto> MBool False]\<rparr>
                   else None)))"

text \<open>Step 2: the loop over the page images (the \<open>try\<close> of lines 155..160).\<close>

fun ocr_pages ::
  "ocr_env \<Rightarrow> string list \<Rightarrow> image list \<Rightarrow> (ocr_error + string list \<times> string list) \<times> ocr_event list" where
  "ocr_pages e candidates [] = (Inr ([], []), [])"
| "ocr_pages e candidates (img # imgs) =
     (case run_tesseract e img candidates of
        (Inl err, evs) \<Rightarrow> (Inl err, evs)
      | (Inr (txt, lang_used), evs) \<Rightarrow>
          (case ocr_pages e candidates imgs of
             (Inl err, evs') \<Rightarrow> (Inl err, evs @ evs')
           | (Inr (txts, langs), evs') \<Rightarrow> (Inr (txt # txts, lang_used # langs), evs @ evs')))"

text \<open>\<open>_extract_from_pdf\<close>.\<close>

definition extract_from_pdf ::
  "ocr_env \<Rightarrow> path \<Rightarrow> string option \<Rightarrow> (ocr_error + ocr_result) \<times> ocr_event list" where
  "extract_from_pdf e p languages =
     (case direct_pdf_text e p of
        Some res \<Rightarrow> (Inr res, [])
      | None \<Rightarrow>
          (case convert_from_path e of
             None \<Rightarrow>
               (Inl (OCRError (''pdf2image is required for OCR on PDF files. Install pdf2image or ''
                  @ ''provide a PDF with selectable text.'')), [])
           | Some convert \<Rightarrow>
               (case convert p (PDF_DPI e) of
                  Inl msg \<Rightarrow> (Inl (OtherError msg), [Rasterized p])
                | Inr images \<Rightarrow>
                    if images = []
                    then (Inl (OCRError ''No pages found in PDF for OCR processing.''), [Rasterized p])
                    else
                      (let candidates = resolve_language_attempts e languages
                       in case ocr_pages e candidates images of
                            (Inl err, evs) \<Rightarrow> (Inl err, Rasterized p # evs @ map Closed images)
                          | (Inr (ocr_text_chunks, used_languages), evs) \<Rightarrow>
                              (Inr \<lparr>ocr_text =
                                      strip (join [CHR 0x0A, CHR 0x0A]
                                               (map strip (filter (\<lambda>chunk. strip chunk \<noteq> []) ocr_text_chunks))),
                                    ocr_metadata =
                                      [''engine'' \<mapsto> MStr ''tesseract'',
                                       ''source'' \<mapsto> MStr ''pdf_ocr'',
                                       ''page_count'' \<mapsto> MInt (int (length images)),
                                       ''languages'' \<mapsto> MList (dedupe_preserve_order used_languages),
                                       ''used_ocr'' \<mapsto> MBool True]\<rparr>,
                               Rasterized p # evs @ map Closed images)))))"

text \<open>\<open>extract_text\<close>.\<close>

definition extract_text ::
  "ocr_env \<Rightarrow> path \<Rightarrow> string option \<Rightarrow> (ocr_error + ocr_result) \<times> ocr_event list" where
  "extract_text e p languages =
     (if \<not> path_exists e p then (Inl (FileNotFoundError (''File not found: '' @ path_str p)), [])
      else case ensure_dependencies e p of
             Some err \<Rightarrow> (Inl err, [])
           | None \<Rightarrow>
               (let suffix = lower (path_suffix p)
                in if suffix \<in> set SUPPORTED_IMAGE_EXTENSIONS then extract_from_image e p languages
                   else if suffix \<in> set SUPPORTED_PDF_EXTENSIONS then extract_from_pdf e p languages
                   else (Inl (OCRError (''Unsupported file type for OCR: '' @ suffix)), [])))"

text \<open>Whether a log of calls has a call of the recognizer in it.\<close>

fun is_recognition :: "ocr_event \<Rightarrow> bool" where
  "is_recognition (Recognized img lang) = True"
| "is_recognition ev = False"

definition recognition_ran :: "ocr_event list \<Rightarrow> bool" where
  "recognition_ran evs = list_ex is_recognition evs"

section \<open>Requests on one document, one after another\<close>

text \<open>
  The two endpoints that write, as requests on a document. \<open>handle\<close> gives the store a
  request leaves, whichever way it ends, and whether it recorded a new version;
  \<open>handle_all\<close> runs a list of requests and counts the versions recorded.
\<close>

datatype request =
    Upload env "string option" upload_file string string "string option"
  | Rollback env string

fun handle :: "string \<Rightarrow> request \<Rightarrow> store \<Rightarrow> bool \<times> store" where
  "handle d (Upload e created_by file change_summary bump version) st =
     (case upload_new_version e d created_by file change_summary bump version st of
        (Inl err, st') \<Rightarrow> (False, st')
      | (Inr new_version, st') \<Rightarrow> (True, st'))"
| "handle d (Rollback e version_id) st = (False, snd (rollback_version e d version_id st))"

fun handle_all :: "string \<Rightarrow> request list \<Rightarrow> store \<Rightarrow> nat \<times> store" where
  "handle_all d [] st = (0, st)"
| "handle_all d (r # rs) st =
     (case handle d r st of
        (recorded_one, st1) \<Rightarrow>
          (case handle_all d rs st1 of
             (n, st2) \<Rightarrow> ((if recorded_one then 1 else 0) + n, st2)))"

text \<open>The history has a row of the document with this version string.\<close>

definition recorded :: "string \<Rightarrow> string \<Rightarrow> store \<Rightarrow> bool" where
  "recorded d ver st = list_ex (\<lambda>r. ver_document_id r = d \<and> ver_version r = ver) (versions st)"

text \<open>The version string that line 1749 takes for a metadata object.\<close>

definition current_version_of :: "metadata \<Rightarrow> string" where
  "current_version_of meta = prev_version (meta_get meta ''version'')"

text \<open>The document's current version has a row in the history (or there is no such
  document).\<close>

definition current_recorded :: "string \<Rightarrow> store \<Rightarrow> bool" where
  "current_recorded d st =
     (case documents st d of
        None \<Rightarrow> True
      | Some doc \<Rightarrow> recorded d (current_version_of (meta_or_empty (doc_metadata doc))) st)"

text \<open>Every row of the document carries metadata whose version has a row in the history:
  the rows that \<open>upload_new_version\<close> writes are of this kind, an empty history is.\<close>

definition history_wf :: "string \<Rightarrow> store \<Rightarrow> bool" where
  "history_wf d st =
     list_all (\<lambda>r. ver_document_id r = d \<longrightarrow> recorded d (current_version_of (ver_metadata r)) st)
       (versions st)"

section \<open>Example inputs\<close>

text \<open>
  A small store, environment and upload on which the theorems below are exercised. The
  example chunker makes one chunk of the whole content, the example embedder adds a
  one-component vector, and the example diff lists the lines of the left side and then
  those of the right side.
\<close>

definition example_document :: document where
  "example_document =
     \<lparr>doc_title = ''Manual'',
      doc_source = Some ''manual.txt'',
      doc_content = Some [111, 108, 100],
      doc_metadata = Some [''version'' \<mapsto> JStr ''1.0''],
      doc_updated_at = 0\<rparr>"

definition example_store :: store where
  "example_store =
     \<lparr>documents = [''doc-1'' \<mapsto> example_document],
      versions = [],
      chunks = [\<lparr>cr_document_id = ''doc-1'',
                 cr_content = [111, 108, 100],
                 cr_embedding = None,
                 cr_chunk_index = 0,
                 cr_metadata = Map.empty,
                 cr_token_count = None\<rparr>]\<rparr>"

definition example_snapshot :: version_row where
  "example_snapshot =
     \<lparr>ver_id = ''v0'',
      ver_document_id = ''doc-1'',
      ver_version = ''0.9'',
      ver_change_summary = ''first draft'',
      ver_content = [100, 114, 97, 102, 116],
      ver_metadata = [''version'' \<mapsto> JStr ''0.9''],
      ver_file_path = JNull,
      ver_file_mime = JNull,
      ver_file_size = JNull,
      ver_created_by = None\<rparr>"

definition example_history :: store where
  "example_history = example_store\<lparr>versions := [example_snapshot]\<rparr>"

definition example_chunks :: "utext \<Rightarrow> chunk list" where
  "example_chunks content =
     [\<lparr>chunk_content = content,
       chunk_index = 0,
       chunk_metadata = Map.empty,
       chunk_token_count = Some (int (length content)),
       chunk_embedding = None\<rparr>]"

definition example_embed :: "chunk list \<Rightarrow> chunk list" where
  "example_embed chs = map (\<lambda>ch. ch\<lparr>chunk_embedding := Some [''0.5'']\<rparr>) chs"

definition example_env :: "(stmt \<Rightarrow> string option) \<Rightarrow> env" where
  "example_env flt =
     \<lparr>chunk_document = (\<lambda>content title source meta. Inr (example_chunks content)),
      embed_chunks = (\<lambda>chs. Inr (example_embed chs)),
      fault = flt,
      new_id = (\<lambda>n. CHR ''v'' # str_nat n),
      now = 7,
      unified_diff = (\<lambda>a b fromfile tofile. a @ b)\<rparr>"

definition no_fault :: "stmt \<Rightarrow> string option" where
  "no_fault s = None"

definition fault_at :: "stmt \<Rightarrow> stmt \<Rightarrow> string option" where
  "fault_at s0 s = (if s = s0 then Some ''connection lost'' else None)"

definition example_file :: upload_file where
  "example_file =
     \<lparr>upload_filename = Some ''manual-v2.txt'',
      upload_content_type = Some ''text/plain'',
      upload_read = Inr [110, 101, 119]\<rparr>"

text \<open>
  For text extraction: an environment with every library installed, in which every path
  exists, an image file opens as an RGBA image and a PDF rasterizes to two pages; the
  recognizer and the PDF reader are left open. Three recognizers: one that only has the
  English language data, one that finds nothing on the page, and one whose Tesseract
  binary is missing. Two PDF files: one with text on its second page only, one without
  any.
\<close>

definition example_ocr_env ::
  "(image \<Rightarrow> string \<Rightarrow> string option \<Rightarrow> tess_outcome) \<Rightarrow> (path \<Rightarrow> string + pdf_page list) \<Rightarrow> ocr_env" where
  "example_ocr_env recognizer reader =
     \<lparr>pytesseract_present = True,
      pillow_present = True,
      convert_from_path =
        Some (\<lambda>p dpi. Inr [\<lparr>img_name = ''page-1'', img_mode = ''RGB''\<rparr>,
                            \<lparr>img_name = ''page-2'', img_mode = ''P''\<rparr>]),
      PdfReader = Some reader,
      image_to_string = recognizer,
      image_open = (\<lambda>p. Inr \<lparr>img_name = path_str p, img_mode = ''RGBA''\<rparr>),
      path_exists = (\<lambda>p. True),
      DEFAULT_LANG = ''vie+eng'',
      FALLBACK_LANG = ''eng'',
      TESS_CONFIG = [],
      PDF_DPI = 300\<rparr>"

definition english_only :: "image \<Rightarrow> string \<Rightarrow> string option \<Rightarrow> tess_outcome" where
  "english_only img lang config =
     (if lang = ''eng'' then TessText ''Hello '' else TessFailed ''Failed loading language'')"

definition blank_page :: "image \<Rightarrow> string \<Rightarrow> string option \<Rightarrow> tess_outcome" where
  "blank_page img lang config = TessText [CHR 0x0C]"

definition no_binary :: "image \<Rightarrow> string \<Rightarrow> string option \<Rightarrow> tess_outcome" where
  "no_binary img lang config = TessNotFound"

definition text_pdf :: "path \<Rightarrow> string + pdf_page list" where
  "text_pdf p = Inr [Inl ''broken page'', Inr (Some '' Chapter 1 ''), Inr None]"

definition scanned_pdf :: "path \<Rightarrow> string + pdf_page list" where
  "scanned_pdf p = Inr [Inr (Some '' ''), Inr None]"

definition example_png :: path where
  "example_png = \<lparr>path_str = ''scan.PNG'', path_suffix = ''.PNG''\<rparr>"

definition example_pdf :: path where
  "example_pdf = \<lparr>path_str = ''report.pdf'', path_suffix = ''.pdf''\<rparr>"

section \<open>Properties of the string functions\<close>


lemma ascii_digit_lower: "is_ascii_digit c \<Longrightarrow> lower_char c = c"
  by (auto simp: is_ascii_digit_def lower_char_def Let_def)


lemma ascii_digit_not_dot: "is_ascii_digit c \<Longrightarrow> c \<noteq> CHR ''.''"
  by (auto simp: is_ascii_digit_def Let_def)


lemma digit_char_ascii: "d < 10 \<Longrightarrow> is_ascii_digit (digit_char d)"
  by (auto simp: is_ascii_digit_def digit_char_def Let_def)

lemma digit_value_digit_char: "d < 10 \<Longrightarrow> digit_value (digit_char d) = int d"
  by (auto simp: digit_value_def digit_char_def)

lemma str_nat_digits: "list_all is_ascii_digit (str_nat n)"
proof (induction n rule: str_nat.induct)
  case (1 n)
  show ?case
  proof (cases "n < 10")
    case True
    then show ?thesis by (subst str_nat.simps) (simp add: digit_char_ascii)
  next
    case False
    with 1 show ?thesis by (subst str_nat.simps) (simp add: digit_char_ascii)
  qed
qed

lemma str_nat_nonempty: "str_nat n \<noteq> []"
  by (subst str_nat.simps) simp

lemma foldl_digits_snoc:
  "foldl (\<lambda>a c. 10 * a + digit_value c) 0 (xs @ [c]) = 10 * foldl (\<lambda>a c. 10 * a + digit_value c) 0 xs + digit_value c"
  by simp

lemma str_nat_value: "foldl (\<lambda>a c. 10 * a + digit_value c) 0 (str_nat n) = int n"
proof (induction n rule: str_nat.induct)
  case (1 n)
  show ?case
  proof (cases "n < 10")
    case True
    then show ?thesis by (subst str_nat.simps) (simp add: digit_value_digit_char)
  next
    case False
    with 1 have "foldl (\<lambda>a c. 10 * a + digit_value c) 0 (str_nat (n div 10)) = int (n div 10)" by simp
    with False show ?thesis
      by (subst str_nat.simps) (simp add: digit_value_digit_char zdiv_int zmod_int)
  qed
qed

lemma py_int_str_nat: "py_int (str_nat n) = Some (int n)"
  by (simp add: py_int_def str_nat_digits str_nat_nonempty str_nat_value)


lemma of_char_lt: "(of_char c :: nat) < 256"
  by (cases c) (simp add: of_char_Char horner_sum_bit_eq_take_bit)



























lemma dot_not_space: "\<not> is_space (CHR ''.'')"
  by (simp add: is_space_def)







section \<open>The re-indexing transaction\<close>

lemma transaction_failed: "transaction body st = (Inl err, st') \<Longrightarrow> st' = st"
  by (auto simp: transaction_def split: prod.splits sum.splits)

lemma transaction_done: "transaction body st = (Inr r, st') \<Longrightarrow> body st = (Inr r, st')"
  by (auto simp: transaction_def split: prod.splits sum.splits)

lemma transaction_of_done: "body st = (Inr r, st') \<Longrightarrow> transaction body st = (Inr r, st')"
  by (simp add: transaction_def)

lemma insert_chunks_done:
  "insert_chunks e d i chs st = (Inr u, st') \<Longrightarrow>
     st' = st\<lparr>chunks := chunks st @ map (chunk_row_of d) chs\<rparr>"
proof (induction chs arbitrary: i st)
  case Nil
  then show ?case by simp
next
  case (Cons ch chs)
  from Cons.prems have
    step: "insert_chunks e d (Suc i) chs (st\<lparr>chunks := chunks st @ [chunk_row_of d ch]\<rparr>) = (Inr u, st')"
    by (auto split: option.splits)
  from Cons.IH [OF step] show ?case by simp
qed

lemma insert_chunks_no_fault:
  "fault e = (\<lambda>s. None) \<Longrightarrow>
     insert_chunks e d i chs st = (Inr (), st\<lparr>chunks := chunks st @ map (chunk_row_of d) chs\<rparr>)"
  by (induction chs arbitrary: i st) auto

lemma replace_chunks_done:
  assumes "replace_chunks e d content title source meta st = (Inr u, st')"
  shows "\<exists>chs0 chs. chunk_document e content title source meta = Inr chs0 \<and>
           embed_chunks e chs0 = Inr chs \<and>
           st' = st\<lparr>chunks := filter (\<lambda>r. cr_document_id r \<noteq> d) (chunks st) @ map (chunk_row_of d) chs\<rparr>"
  using assms
  by (auto simp: replace_chunks_def delete_chunks_def dest!: insert_chunks_done
      split: sum.splits option.splits)

lemma replace_chunks_no_fault:
  assumes "fault e = (\<lambda>s. None)"
    and "chunk_document e content title source meta = Inr chs0"
    and "embed_chunks e chs0 = Inr chs"
  shows "replace_chunks e d content title source meta st =
          (Inr (), st\<lparr>chunks := filter (\<lambda>r. cr_document_id r \<noteq> d) (chunks st) @ map (chunk_row_of d) chs\<rparr>)"
  using assms by (simp add: replace_chunks_def delete_chunks_def insert_chunks_no_fault)

lemma ensure_baseline_cases:
  assumes "ensure_baseline e d cb doc cv st = (cv', st')"
  shows "\<exists>base. st' = st\<lparr>versions := versions st @ base\<rparr> \<and> length base \<le> 1"
proof -
  have "st' = st \<or> (\<exists>row. st' = st\<lparr>versions := versions st @ [row]\<rparr>)"
    using assms
    by (auto simp: ensure_baseline_def Let_def insert_version_def
        split: sum.splits bool.splits option.splits if_splits)
  then show ?thesis
  proof
    assume "st' = st"
    then have "st' = st\<lparr>versions := versions st @ []\<rparr>" by simp
    then show ?thesis by (intro exI [of _ "[]"]) simp
  next
    assume "\<exists>row. st' = st\<lparr>versions := versions st @ [row]\<rparr>"
    then obtain row where "st' = st\<lparr>versions := versions st @ [row]\<rparr>" ..
    then show ?thesis by (intro exI [of _ "[row]"]) simp
  qed
qed

lemma upload_body_done:
  assumes "upload_body e d cb f raw content cs b v st = (Inr nv, st')"
  shows "\<exists>doc chs0 chs base.
           documents st d = Some doc \<and>
           chunk_document e content (doc_title doc) (upload_source doc f)
              (build_metadata (meta_or_empty (doc_metadata doc)) nv f raw) = Inr chs0 \<and>
           embed_chunks e chs0 = Inr chs \<and>
           length base \<le> 1 \<and>
           snd (ensure_baseline e d cb doc (meta_get (meta_or_empty (doc_metadata doc)) ''version'') st)
             = st\<lparr>versions := versions st @ base\<rparr> \<and>
           nv = next_version v
                  (fst (ensure_baseline e d cb doc (meta_get (meta_or_empty (doc_metadata doc)) ''version'') st)) b \<and>
           chunks st' = filter (\<lambda>r. cr_document_id r \<noteq> d) (chunks st) @ map (chunk_row_of d) chs \<and>
           versions st' = versions st @ base @
              [(new_version_row d cb f raw content cs nv
                  (build_metadata (meta_or_empty (doc_metadata doc)) nv f raw))
                 \<lparr>ver_id := new_id e (length (versions st @ base))\<rparr>] \<and>
           documents st' = (documents st)(d \<mapsto>
              doc\<lparr>doc_content := Some content,
                  doc_metadata := Some (build_metadata (meta_or_empty (doc_metadata doc)) nv f raw),
                  doc_updated_at := now e\<rparr>)"
proof -
  from assms obtain doc where doc: "documents st d = Some doc"
    by (auto simp: upload_body_def get_document_core_def split: option.splits sum.splits)
  define meta where "meta = meta_or_empty (doc_metadata doc)"
  obtain cv st1 where eb: "ensure_baseline e d cb doc (meta_get meta ''version'') st = (cv, st1)"
    by (cases "ensure_baseline e d cb doc (meta_get meta ''version'') st")
  from ensure_baseline_cases [OF eb] obtain base where
    base: "st1 = st\<lparr>versions := versions st @ base\<rparr>" "length base \<le> 1" by blast
  define nv0 where "nv0 = next_version v cv b"
  define nm where "nm = build_metadata meta nv0 f raw"
  have nf: "fault e SelectDocument = None"
    using assms by (auto simp: upload_body_def get_document_core_def split: option.splits)
  from assms doc eb nf obtain u st2 where
    rc: "replace_chunks e d content (doc_title doc) (upload_source doc f) nm st1 = (Inr u, st2)"
    and rest: "(case insert_version e InsertVersion (new_version_row d cb f raw content cs nv0 nm) st2 of
                  Inl err \<Rightarrow> (Inl err, st2)
                | Inr st3 \<Rightarrow>
                    (case update_document e d content nm st3 of
                       Inl err \<Rightarrow> (Inl err, st3)
                     | Inr st4 \<Rightarrow> (Inr nv0, st4))) = (Inr nv, st')"
    by (auto simp: upload_body_def get_document_core_def Let_def meta_def nv0_def nm_def
        split: prod.splits sum.splits)
  from replace_chunks_done [OF rc] obtain chs0 chs where
    ch: "chunk_document e content (doc_title doc) (upload_source doc f) nm = Inr chs0"
        "embed_chunks e chs0 = Inr chs"
        "st2 = st1\<lparr>chunks := filter (\<lambda>r. cr_document_id r \<noteq> d) (chunks st1) @ map (chunk_row_of d) chs\<rparr>"
    by blast
  from rest have nveq: "nv = nv0"
    by (auto split: sum.splits)
  from rest have st': "st' = st2\<lparr>versions := versions st2 @
         [(new_version_row d cb f raw content cs nv0 nm)\<lparr>ver_id := new_id e (length (versions st2))\<rparr>],
       documents := (documents st2)(d \<mapsto> doc\<lparr>doc_content := Some content, doc_metadata := Some nm,
                  doc_updated_at := now e\<rparr>)\<rparr>"
    using doc base ch(3)
    by (auto simp: insert_version_def update_document_def split: sum.splits option.splits)
  show ?thesis
    apply (rule exI [of _ doc], rule exI [of _ chs0], rule exI [of _ chs], rule exI [of _ base])
    using doc ch base eb nveq st'
    by (simp add: meta_def [symmetric] nv0_def [symmetric] nm_def [symmetric])
qed

lemma or_empty: "(if xs \<noteq> [] then xs else []) = xs"
  by simp

lemma rollback_body_done:
  assumes "rollback_body e d vid st = (Inr rv, st')"
  shows "\<exists>ver doc chs0 chs.
           find (\<lambda>r. ver_document_id r = d \<and> ver_id r = vid) (versions st) = Some ver \<and>
           documents st d = Some doc \<and>
           rv = ver_version ver \<and>
           embed_chunks e chs0 = Inr chs \<and>
           chunks st' = filter (\<lambda>r. cr_document_id r \<noteq> d) (chunks st) @ map (chunk_row_of d) chs \<and>
           versions st' = versions st \<and>
           documents st' = (documents st)(d \<mapsto>
              doc\<lparr>doc_content := Some (ver_content ver),
                  doc_metadata := Some (ver_metadata ver),
                  doc_updated_at := now e\<rparr>)"
proof -
  from assms obtain ver where
    ver: "find (\<lambda>r. ver_document_id r = d \<and> ver_id r = vid) (versions st) = Some ver"
    by (auto simp: rollback_body_def select_version_def split: option.splits sum.splits)
  from assms ver obtain doc where doc: "documents st d = Some doc"
    by (auto simp: rollback_body_def select_version_def get_document_core_def Let_def
        split: option.splits sum.splits)
  let ?source = "case doc_source doc of
                   Some s \<Rightarrow> if s \<noteq> [] then s else ''rollback''
                 | None \<Rightarrow> ''rollback''"
  have nf: "fault e SelectVersion = None" "fault e SelectDocument = None"
    using assms ver
    by (auto simp: rollback_body_def select_version_def get_document_core_def Let_def
        split: option.splits sum.splits)
  have sv: "select_version e SelectVersion d vid st = Inr (Some ver)"
    using ver nf by (simp add: select_version_def)
  have gd: "get_document_core e d st = Inr (Some doc)"
    using doc nf by (simp add: get_document_core_def)
  from assms obtain u st2 where
    rc: "replace_chunks e d (ver_content ver) (doc_title doc) ?source (ver_metadata ver) st = (Inr u, st2)"
    and rest: "(case update_document e d (ver_content ver) (ver_metadata ver) st2 of
                  Inl err \<Rightarrow> (Inl err, st2)
                | Inr st3 \<Rightarrow> (Inr (ver_version ver), st3)) = (Inr rv, st')"
    unfolding rollback_body_def Let_def sv gd
    by (auto simp: or_empty split: sum.splits prod.splits)
  from replace_chunks_done [OF rc] obtain chs0 chs where
    ch: "embed_chunks e chs0 = Inr chs"
        "st2 = st\<lparr>chunks := filter (\<lambda>r. cr_document_id r \<noteq> d) (chunks st) @ map (chunk_row_of d) chs\<rparr>"
    by blast
  from rest doc ch(2) have
    "rv = ver_version ver"
    "st' = st2\<lparr>documents := (documents st2)(d \<mapsto> doc\<lparr>doc_content := Some (ver_content ver),
                  doc_metadata := Some (ver_metadata ver), doc_updated_at := now e\<rparr>)\<rparr>"
    by (auto simp: update_document_def split: sum.splits option.splits)
  with ver doc ch show ?thesis
    by (intro exI [of _ ver] exI [of _ doc] exI [of _ chs0] exI [of _ chs]) simp
qed

text \<open>The transaction is what makes the endpoints atomic: the body alone, failing at its
  last statement, has already replaced the chunks.\<close>

lemma upload_body_partial_writes:
  "fst (upload_body (example_env (fault_at UpdateDocument)) ''doc-1'' None example_file
          [110, 101, 119] [110, 101, 119] ''fix typo'' ''minor'' None example_store)
     = Inl (Raised ''connection lost'')
   \<and> map cr_content (chunks example_store) = [111, 108, 100] # []
   \<and> map cr_content
         (chunks (snd (upload_body (example_env (fault_at UpdateDocument)) ''doc-1'' None example_file
                         [110, 101, 119] [110, 101, 119] ''fix typo'' ''minor'' None example_store)))
     = [110, 101, 119] # []"
  by code_simp

lemma upload_failed:
  "upload_new_version e d cb f cs b v st = (Inl err, st') \<Longrightarrow> st' = st"
  by (auto simp: upload_new_version_def split: if_splits sum.splits prod.splits
      dest: transaction_failed)

lemma upload_done:
  assumes "upload_new_version e d cb f cs b v st = (Inr nv, st')"
  shows "\<exists>raw content. read_upload f = Inr (raw, content) \<and>
           upload_body e d cb f raw content cs b v st = (Inr nv, st')"
  using assms
  by (auto simp: upload_new_version_def split: if_splits sum.splits prod.splits
      dest: transaction_done)

lemma rollback_failed:
  "rollback_version e d vid st = (Inl err, st') \<Longrightarrow> st' = st"
  by (auto simp: rollback_version_def dest: transaction_failed)

lemma rollback_done:
  "rollback_version e d vid st = (Inr rv, st') \<Longrightarrow> rollback_body e d vid st = (Inr rv, st')"
  by (auto simp: rollback_version_def dest: transaction_done)

text \<open>
  Claim C1. \<open>upload_new_version\<close> and \<open>rollback_version\<close> are atomic. When either
  fails, at whatever step, the store is the one it started from. When the upload
  succeeds, the document's chunks are exactly the new ones, the history has the new
  snapshot (after at most one baseline row) and the document row has the new content
  and metadata; when the rollback succeeds, the chunks are those of the snapshot's
  content, the history is untouched and the document row has the snapshot's content
  and metadata.
\<close>

theorem reindex_atomic:
  "(upload_new_version e1 d1 cb1 f1 cs1 b1 v1 st1 = (Inl err1, st1') \<longrightarrow> st1' = st1)
   \<and> (rollback_version e2 d2 vid2 st2 = (Inl err2, st2') \<longrightarrow> st2' = st2)
   \<and> (upload_new_version e3 d3 cb3 f3 cs3 b3 v3 st3 = (Inr nv, st3') \<longrightarrow>
        (\<exists>doc raw content chs0 chs base.
           documents st3 d3 = Some doc \<and>
           read_upload f3 = Inr (raw, content) \<and>
           chunk_document e3 content (doc_title doc) (upload_source doc f3)
              (build_metadata (meta_or_empty (doc_metadata doc)) nv f3 raw) = Inr chs0 \<and>
           embed_chunks e3 chs0 = Inr chs \<and>
           length base \<le> 1 \<and>
           chunks st3' = filter (\<lambda>r. cr_document_id r \<noteq> d3) (chunks st3) @ map (chunk_row_of d3) chs \<and>
           versions st3' = versions st3 @ base @
              [(new_version_row d3 cb3 f3 raw content cs3 nv
                  (build_metadata (meta_or_empty (doc_metadata doc)) nv f3 raw))
                 \<lparr>ver_id := new_id e3 (length (versions st3 @ base))\<rparr>] \<and>
           documents st3' = (documents st3)(d3 \<mapsto>
              doc\<lparr>doc_content := Some content,
                  doc_metadata := Some (build_metadata (meta_or_empty (doc_metadata doc)) nv f3 raw),
                  doc_updated_at := now e3\<rparr>)))
   \<and> (rollback_version e4 d4 vid4 st4 = (Inr rv, st4') \<longrightarrow>
        (\<exists>ver doc chs0 chs.
           find (\<lambda>r. ver_document_id r = d4 \<and> ver_id r = vid4) (versions st4) = Some ver \<and>
           documents st4 d4 = Some doc \<and>
           embed_chunks e4 chs0 = Inr chs \<and>
           chunks st4' = filter (\<lambda>r. cr_document_id r \<noteq> d4) (chunks st4) @ map (chunk_row_of d4) chs \<and>
           versions st4' = versions st4 \<and>
           documents st4' = (documents st4)(d4 \<mapsto>
              doc\<lparr>doc_content := Some (ver_content ver),
                  doc_metadata := Some (ver_metadata ver),
                  doc_updated_at := now e4\<rparr>)))"
proof (intro conjI impI)
  assume "upload_new_version e1 d1 cb1 f1 cs1 b1 v1 st1 = (Inl err1, st1')"
  then show "st1' = st1" by (rule upload_failed)
next
  assume "rollback_version e2 d2 vid2 st2 = (Inl err2, st2')"
  then show "st2' = st2" by (rule rollback_failed)
next
  assume a: "upload_new_version e3 d3 cb3 f3 cs3 b3 v3 st3 = (Inr nv, st3')"
  from upload_done [OF a] obtain raw content where
    r: "read_upload f3 = Inr (raw, content)"
    and b: "upload_body e3 d3 cb3 f3 raw content cs3 b3 v3 st3 = (Inr nv, st3')" by blast
  from upload_body_done [OF b] r
  show "\<exists>doc raw content chs0 chs base.
           documents st3 d3 = Some doc \<and>
           read_upload f3 = Inr (raw, content) \<and>
           chunk_document e3 content (doc_title doc) (upload_source doc f3)
              (build_metadata (meta_or_empty (doc_metadata doc)) nv f3 raw) = Inr chs0 \<and>
           embed_chunks e3 chs0 = Inr chs \<and>
           length base \<le> 1 \<and>
           chunks st3' = filter (\<lambda>r. cr_document_id r \<noteq> d3) (chunks st3) @ map (chunk_row_of d3) chs \<and>
           versions st3' = versions st3 @ base @
              [(new_version_row d3 cb3 f3 raw content cs3 nv
                  (build_metadata (meta_or_empty (doc_metadata doc)) nv f3 raw))
                 \<lparr>ver_id := new_id e3 (length (versions st3 @ base))\<rparr>] \<and>
           documents st3' = (documents st3)(d3 \<mapsto>
              doc\<lparr>doc_content := Some content,
                  doc_metadata := Some (build_metadata (meta_or_empty (doc_metadata doc)) nv f3 raw),
                  doc_updated_at := now e3\<rparr>)"
    by blast
next
  assume a: "rollback_version e4 d4 vid4 st4 = (Inr rv, st4')"
  from rollback_body_done [OF rollback_done [OF a]]
  show "\<exists>ver doc chs0 chs.
           find (\<lambda>r. ver_document_id r = d4 \<and> ver_id r = vid4) (versions st4) = Some ver \<and>
           documents st4 d4 = Some doc \<and>
           embed_chunks e4 chs0 = Inr chs \<and>
           chunks st4' = filter (\<lambda>r. cr_document_id r \<noteq> d4) (chunks st4) @ map (chunk_row_of d4) chs \<and>
           versions st4' = versions st4 \<and>
           documents st4' = (documents st4)(d4 \<mapsto>
              doc\<lparr>doc_content := Some (ver_content ver),
                  doc_metadata := Some (ver_metadata ver),
                  doc_updated_at := now e4\<rparr>)"
    by blast
qed

theorem reindex_atomic_witness:
  "upload_new_version (example_env (fault_at UpdateDocument)) ''doc-1'' None example_file
       ''fix typo'' ''minor'' None example_store
     = (Inl (Raised ''connection lost''), example_store)
   \<and> rollback_version (example_env (fault_at UpdateDocument)) ''doc-1'' ''v0'' example_history
     = (Inl (Raised ''connection lost''), example_history)
   \<and> fst (upload_new_version (example_env no_fault) ''doc-1'' None example_file
            ''fix typo'' ''minor'' None example_store) = Inr ''1.1''
   \<and> (\<exists>doc. documents (snd (upload_new_version (example_env no_fault) ''doc-1'' None example_file
            ''fix typo'' ''minor'' None example_store)) ''doc-1'' = Some doc
          \<and> doc_content doc = Some [110, 101, 119])
   \<and> fst (rollback_version (example_env no_fault) ''doc-1'' ''v0'' example_history) = Inr ''0.9''
   \<and> versions (snd (rollback_version (example_env no_fault) ''doc-1'' ''v0'' example_history))
     = versions example_history"
proof -
  let ?u1 = "upload_new_version (example_env (fault_at UpdateDocument)) ''doc-1'' None example_file
       ''fix typo'' ''minor'' None example_store"
  let ?r2 = "rollback_version (example_env (fault_at UpdateDocument)) ''doc-1'' ''v0'' example_history"
  let ?u3 = "upload_new_version (example_env no_fault) ''doc-1'' None example_file
            ''fix typo'' ''minor'' None example_store"
  let ?r4 = "rollback_version (example_env no_fault) ''doc-1'' ''v0'' example_history"
  have f1: "fst ?u1 = Inl (Raised ''connection lost'')" by code_simp
  have f2: "fst ?r2 = Inl (Raised ''connection lost'')" by code_simp
  have f3: "fst ?u3 = Inr ''1.1''" by code_simp
  have f4: "fst ?r4 = Inr ''0.9''" by code_simp
  have c3: "read_upload example_file = Inr ([110, 101, 119], [110, 101, 119])" by code_simp
  have h1: "?u1 = (Inl (Raised ''connection lost''), snd ?u1)" using f1 by (simp add: prod_eq_iff)
  have h2: "?r2 = (Inl (Raised ''connection lost''), snd ?r2)" using f2 by (simp add: prod_eq_iff)
  have h3: "?u3 = (Inr ''1.1'', snd ?u3)" using f3 by (simp add: prod_eq_iff)
  have h4: "?r4 = (Inr ''0.9'', snd ?r4)" using f4 by (simp add: prod_eq_iff)
  note t = reindex_atomic [where ?e1.0 = "example_env (fault_at UpdateDocument)" and ?d1.0 = "''doc-1''"
      and ?cb1.0 = None and ?f1.0 = example_file and ?cs1.0 = "''fix typo''" and ?b1.0 = "''minor''"
      and ?v1.0 = None and ?st1.0 = example_store and ?err1.0 = "Raised ''connection lost''"
      and ?st1' = "snd ?u1"
      and ?e2.0 = "example_env (fault_at UpdateDocument)" and ?d2.0 = "''doc-1''" and ?vid2.0 = "''v0''"
      and ?st2.0 = example_history and ?err2.0 = "Raised ''connection lost''" and ?st2' = "snd ?r2"
      and ?e3.0 = "example_env no_fault" and ?d3.0 = "''doc-1''"
      and ?cb3.0 = None and ?f3.0 = example_file and ?cs3.0 = "''fix typo''" and ?b3.0 = "''minor''"
      and ?v3.0 = None and ?st3.0 = example_store and ?nv = "''1.1''" and ?st3' = "snd ?u3"
      and ?e4.0 = "example_env no_fault" and ?d4.0 = "''doc-1''" and ?vid4.0 = "''v0''"
      and ?st4.0 = example_history and ?rv = "''0.9''" and ?st4' = "snd ?r4"]
  from t h1 have s1: "snd ?u1 = example_store" by blast
  from t h2 have s2: "snd ?r2 = example_history" by blast
  from t h3 c3 have s3: "\<exists>doc. documents (snd ?u3) ''doc-1'' = Some doc \<and> doc_content doc = Some [110, 101, 119]"
    by auto
  from t h4 have s4: "versions (snd ?r4) = versions example_history" by blast
  from h1 s1 have "?u1 = (Inl (Raised ''connection lost''), example_store)" by simp
  moreover from h2 s2 have "?r2 = (Inl (Raised ''connection lost''), example_history)" by simp
  ultimately show ?thesis using f3 s3 f4 s4 by blast
qed

section \<open>The version parser against the specification's rule\<close>









section \<open>Bumping the version\<close>


lemma build_metadata_version: "build_metadata meta nv f raw ''version'' = Some (JStr nv)"
  by (auto simp: build_metadata_def Let_def split: option.splits)





section \<open>Decoding the upload\<close>

lemma decode_latin1_total: "decode_charmap latin1 ign raw = Some (map unat raw)"
  by (induction raw) (simp_all add: latin1_def)

lemma read_upload_bytes:
  "upload_read f = Inr raw \<Longrightarrow>
     read_upload f = Inr (raw, case decode_utf8 raw of Some t \<Rightarrow> t | None \<Rightarrow> map unat raw)"
  by (simp add: read_upload_def decode_latin1_total split: option.splits)

lemma read_upload_error:
  "read_upload f = Inl err \<Longrightarrow>
     \<exists>msg. upload_read f = Inl msg \<and> err = HTTPException 400 (''Failed to read file: '' @ msg)"
  by (auto simp: read_upload_def decode_latin1_total split: sum.splits option.splits)

text \<open>
  Claim C10. Decoding the uploaded bytes cannot fail: Latin-1 gives every byte a code
  point, so the fallback drops nothing and raises nothing. \<open>read_upload\<close> fails only
  when reading the file does; bytes that are not UTF-8 become the text with one code
  point per byte, and the upload goes on into its transaction with that text.
\<close>

theorem upload_decoding_total:
  "decode_charmap latin1 True raw = Some (map unat raw)
   \<and> (upload_read f = Inr raw \<longrightarrow>
        read_upload f = Inr (raw, case decode_utf8 raw of Some t \<Rightarrow> t | None \<Rightarrow> map unat raw))
   \<and> (read_upload g = Inl err \<longrightarrow>
        (\<exists>msg. upload_read g = Inl msg \<and> err = HTTPException 400 (''Failed to read file: '' @ msg)))
   \<and> (upload_read f = Inr raw \<and> decode_utf8 raw = None \<and> strip cs \<noteq> [] \<longrightarrow>
        upload_new_version e d cb f cs b v st =
          transaction (upload_body e d cb f raw (map unat raw) cs b v) st)"
proof (intro conjI impI)
  show "decode_charmap latin1 True raw = Some (map unat raw)" by (rule decode_latin1_total)
  show "read_upload f = Inr (raw, case decode_utf8 raw of Some t \<Rightarrow> t | None \<Rightarrow> map unat raw)"
    if "upload_read f = Inr raw" using that by (rule read_upload_bytes)
  show "\<exists>msg. upload_read g = Inl msg \<and> err = HTTPException 400 (''Failed to read file: '' @ msg)"
    if "read_upload g = Inl err" using that by (rule read_upload_error)
next
  assume a: "upload_read f = Inr raw \<and> decode_utf8 raw = None \<and> strip cs \<noteq> []"
  then have c: "\<not> (cs = [] \<or> strip cs = [])" by (auto simp: strip_def)
  from a have "read_upload f = Inr (raw, case decode_utf8 raw of Some t \<Rightarrow> t | None \<Rightarrow> map unat raw)"
    by (intro read_upload_bytes) simp
  with a have r: "read_upload f = Inr (raw, map unat raw)" by simp
  show "upload_new_version e d cb f cs b v st =
          transaction (upload_body e d cb f raw (map unat raw) cs b v) st"
    unfolding upload_new_version_def r using c by simp
qed

theorem upload_decoding_total_witness:
  "decode_utf8 [0x63, 0x61, 0x66, 0xE9] = None
   \<and> read_upload (example_file\<lparr>upload_read := Inr [0x63, 0x61, 0x66, 0xE9]\<rparr>)
       = Inr ([0x63, 0x61, 0x66, 0xE9], [99, 97, 102, 233])
   \<and> read_upload (example_file\<lparr>upload_read := Inl ''connection reset''\<rparr>)
       = Inl (HTTPException 400 ''Failed to read file: connection reset'')
   \<and> upload_new_version (example_env no_fault) ''doc-1'' None
         (example_file\<lparr>upload_read := Inr [0x63, 0x61, 0x66, 0xE9]\<rparr>) ''fix typo'' ''minor'' None
         example_store
       = transaction
           (upload_body (example_env no_fault) ''doc-1'' None
              (example_file\<lparr>upload_read := Inr [0x63, 0x61, 0x66, 0xE9]\<rparr>)
              [0x63, 0x61, 0x66, 0xE9] [99, 97, 102, 233] ''fix typo'' ''minor'' None)
           example_store"
proof -
  let ?raw = "[0x63, 0x61, 0x66, 0xE9] :: byte list"
  let ?f = "example_file\<lparr>upload_read := Inr ?raw\<rparr>"
  let ?g = "example_file\<lparr>upload_read := Inl ''connection reset''\<rparr>"
  have d: "decode_utf8 ?raw = None" by (simp add: is_cont_def cont_bits_def)
  have m: "map unat ?raw = [99, 97, 102, 233]" by simp
  have r: "upload_read ?f = Inr ?raw" by simp
  have g: "read_upload ?g = Inl (HTTPException 400 ''Failed to read file: connection reset'')"
    by (simp add: read_upload_def)
  have c: "strip ''fix typo'' \<noteq> []" by code_simp
  note t = upload_decoding_total [where raw = ?raw and f = ?f and g = ?g
      and err = "HTTPException 400 ''Failed to read file: connection reset''"
      and cs = "''fix typo''" and e = "example_env no_fault" and d = "''doc-1''" and cb = None
      and b = "''minor''" and v = None and st = example_store]
  from t r d have "read_upload ?f = Inr (?raw, map unat ?raw)" by simp
  moreover from t r d c have "upload_new_version (example_env no_fault) ''doc-1'' None ?f
         ''fix typo'' ''minor'' None example_store
       = transaction (upload_body (example_env no_fault) ''doc-1'' None ?f ?raw (map unat ?raw)
                        ''fix typo'' ''minor'' None) example_store"
    by blast
  ultimately show ?thesis using d g unfolding m by simp
qed

section \<open>Rolling back to a snapshot\<close>

lemma update_document_no_fault:
  "fault e = (\<lambda>s. None) \<Longrightarrow> documents st d = Some doc \<Longrightarrow>
     update_document e d content meta st =
       Inr (st\<lparr>documents := (documents st)(d \<mapsto>
              doc\<lparr>doc_content := Some content, doc_metadata := Some meta, doc_updated_at := now e\<rparr>)\<rparr>)"
  by (simp add: update_document_def)

lemma rollback_no_fault:
  assumes nf: "fault e = (\<lambda>s. None)"
    and ver: "find (\<lambda>r. ver_document_id r = d \<and> ver_id r = vid) (versions st) = Some ver"
    and doc: "documents st d = Some doc"
    and ch: "chunk_document e (ver_content ver) (doc_title doc)
               (case doc_source doc of Some s \<Rightarrow> if s \<noteq> [] then s else ''rollback'' | None \<Rightarrow> ''rollback'')
               (ver_metadata ver) = Inr chs0"
    and em: "embed_chunks e chs0 = Inr chs"
  shows "\<exists>st'. rollback_version e d vid st = (Inr (ver_version ver), st')"
proof -
  have sv: "select_version e SelectVersion d vid st = Inr (Some ver)"
    using ver nf by (simp add: select_version_def)
  have gd: "get_document_core e d st = Inr (Some doc)"
    using doc nf by (simp add: get_document_core_def)
  let ?st2 = "st\<lparr>chunks := filter (\<lambda>r. cr_document_id r \<noteq> d) (chunks st) @ map (chunk_row_of d) chs\<rparr>"
  have rc: "replace_chunks e d (ver_content ver) (doc_title doc)
               (case doc_source doc of Some s \<Rightarrow> if s \<noteq> [] then s else ''rollback'' | None \<Rightarrow> ''rollback'')
               (ver_metadata ver) st = (Inr (), ?st2)"
    by (rule replace_chunks_no_fault [OF nf ch em])
  have "documents ?st2 d = Some doc" using doc by simp
  from update_document_no_fault [OF nf this]
  have "\<exists>st3. update_document e d (ver_content ver) (ver_metadata ver) ?st2 = Inr st3" by blast
  then obtain st3 where ud: "update_document e d (ver_content ver) (ver_metadata ver) ?st2 = Inr st3" ..
  have "rollback_body e d vid st = (Inr (ver_version ver), st3)"
    unfolding rollback_body_def Let_def sv gd or_empty by (simp add: rc ud)
  then show ?thesis unfolding rollback_version_def by (auto dest: transaction_of_done)
qed

text \<open>
  Claim C3. A rollback of an existing document to an existing snapshot that goes through
  leaves the document row with exactly the snapshot's content and metadata and returns
  the snapshot's version, and the history is the one it found: no row is added. It does
  go through when no statement fails and the chunker and the embedder return. An upload
  that goes through, by contrast, always makes the history longer.
\<close>

theorem rollback_restores_snapshot:
  "(find (\<lambda>r. ver_document_id r = d \<and> ver_id r = vid) (versions st) = Some ver \<and>
    documents st d = Some doc \<and>
    rollback_version e d vid st = (Inr rv, st') \<longrightarrow>
      documents st' d =
        Some (doc\<lparr>doc_content := Some (ver_content ver),
                  doc_metadata := Some (ver_metadata ver),
                  doc_updated_at := now e\<rparr>) \<and>
      versions st' = versions st \<and>
      rv = ver_version ver)
   \<and> (find (\<lambda>r. ver_document_id r = d \<and> ver_id r = vid) (versions st) = Some ver \<and>
      documents st d = Some doc \<and>
      fault e = (\<lambda>s. None) \<and>
      chunk_document e (ver_content ver) (doc_title doc)
        (case doc_source doc of Some s \<Rightarrow> if s \<noteq> [] then s else ''rollback'' | None \<Rightarrow> ''rollback'')
        (ver_metadata ver) = Inr chs0 \<and>
      embed_chunks e chs0 = Inr chs \<longrightarrow>
        (\<exists>st''. rollback_version e d vid st = (Inr (ver_version ver), st'')))
   \<and> (upload_new_version e2 d2 cb f cs b v st2 = (Inr nv, st2') \<longrightarrow>
        length (versions st2') > length (versions st2))"
proof (intro conjI impI)
  assume a: "find (\<lambda>r. ver_document_id r = d \<and> ver_id r = vid) (versions st) = Some ver \<and>
    documents st d = Some doc \<and> rollback_version e d vid st = (Inr rv, st')"
  then have rb: "rollback_body e d vid st = (Inr rv, st')" by (simp add: rollback_done)
  from rollback_body_done [OF rb] a
  have r: "rv = ver_version ver \<and> versions st' = versions st \<and>
        documents st' = (documents st)(d \<mapsto>
              doc\<lparr>doc_content := Some (ver_content ver),
                  doc_metadata := Some (ver_metadata ver),
                  doc_updated_at := now e\<rparr>)"
    by auto
  then show "documents st' d =
        Some (doc\<lparr>doc_content := Some (ver_content ver),
                  doc_metadata := Some (ver_metadata ver),
                  doc_updated_at := now e\<rparr>)" by simp
  from r show "versions st' = versions st" by simp
  from r show "rv = ver_version ver" by simp
next
  assume "find (\<lambda>r. ver_document_id r = d \<and> ver_id r = vid) (versions st) = Some ver \<and>
      documents st d = Some doc \<and>
      fault e = (\<lambda>s. None) \<and>
      chunk_document e (ver_content ver) (doc_title doc)
        (case doc_source doc of Some s \<Rightarrow> if s \<noteq> [] then s else ''rollback'' | None \<Rightarrow> ''rollback'')
        (ver_metadata ver) = Inr chs0 \<and>
      embed_chunks e chs0 = Inr chs"
  then show "\<exists>st''. rollback_version e d vid st = (Inr (ver_version ver), st'')"
    using rollback_no_fault [of e d vid st ver doc chs0 chs] by blast
next
  assume a: "upload_new_version e2 d2 cb f cs b v st2 = (Inr nv, st2')"
  from upload_done [OF a] obtain raw content where
    b: "upload_body e2 d2 cb f raw content cs b v st2 = (Inr nv, st2')" by blast
  from upload_body_done [OF b] obtain base row where
    "versions st2' = versions st2 @ base @ [row]" by blast
  then show "length (versions st2') > length (versions st2)" by simp
qed

theorem rollback_restores_snapshot_witness:
  "find (\<lambda>r. ver_document_id r = ''doc-1'' \<and> ver_id r = ''v0'') (versions example_history)
     = Some example_snapshot
   \<and> documents example_history ''doc-1'' = Some example_document
   \<and> fst (rollback_version (example_env no_fault) ''doc-1'' ''v0'' example_history) = Inr ''0.9''
   \<and> (\<exists>st''. rollback_version (example_env no_fault) ''doc-1'' ''v0'' example_history
                = (Inr (ver_version example_snapshot), st''))
   \<and> documents (snd (rollback_version (example_env no_fault) ''doc-1'' ''v0'' example_history)) ''doc-1''
       = Some (example_document\<lparr>doc_content := Some (ver_content example_snapshot),
                                doc_metadata := Some (ver_metadata example_snapshot),
                                doc_updated_at := now (example_env no_fault)\<rparr>)
   \<and> versions (snd (rollback_version (example_env no_fault) ''doc-1'' ''v0'' example_history))
       = versions example_history
   \<and> fst (upload_new_version (example_env no_fault) ''doc-1'' None example_file
            ''fix typo'' ''minor'' None example_history) = Inr ''1.1''
   \<and> length (versions example_history)
       < length (versions (snd (upload_new_version (example_env no_fault) ''doc-1'' None example_file
            ''fix typo'' ''minor'' None example_history)))"
proof -
  let ?r = "rollback_version (example_env no_fault) ''doc-1'' ''v0'' example_history"
  let ?u = "upload_new_version (example_env no_fault) ''doc-1'' None example_file
            ''fix typo'' ''minor'' None example_history"
  have h1: "find (\<lambda>r. ver_document_id r = ''doc-1'' \<and> ver_id r = ''v0'') (versions example_history)
     = Some example_snapshot"
    by (simp add: example_history_def example_snapshot_def)
  have h2: "documents example_history ''doc-1'' = Some example_document"
    by (simp add: example_history_def example_store_def)
  have f: "fst ?r = Inr ''0.9''" by code_simp
  then have h3: "?r = (Inr ''0.9'', snd ?r)" by (simp add: prod_eq_iff)
  have h4: "fault (example_env no_fault) = (\<lambda>s. None)"
    by (simp add: example_env_def no_fault_def fun_eq_iff)
  have h5: "chunk_document (example_env no_fault) (ver_content example_snapshot)
        (doc_title example_document)
        (case doc_source example_document of Some s \<Rightarrow> if s \<noteq> [] then s else ''rollback''
         | None \<Rightarrow> ''rollback'')
        (ver_metadata example_snapshot) = Inr (example_chunks (ver_content example_snapshot))"
    by (simp add: example_env_def)
  have h6: "embed_chunks (example_env no_fault) (example_chunks (ver_content example_snapshot))
       = Inr (example_embed (example_chunks (ver_content example_snapshot)))"
    by (simp add: example_env_def)
  have g: "fst ?u = Inr ''1.1''" by code_simp
  then have h7: "?u = (Inr ''1.1'', snd ?u)" by (simp add: prod_eq_iff)
  note t = rollback_restores_snapshot [where d = "''doc-1''" and vid = "''v0''" and st = example_history
      and ver = example_snapshot and doc = example_document and e = "example_env no_fault"
      and rv = "''0.9''" and st' = "snd ?r"
      and ?chs0.0 = "example_chunks (ver_content example_snapshot)"
      and chs = "example_embed (example_chunks (ver_content example_snapshot))"
      and ?e2.0 = "example_env no_fault" and ?d2.0 = "''doc-1''" and cb = None and f = example_file
      and cs = "''fix typo''" and b = "''minor''" and v = None and ?st2.0 = example_history
      and nv = "''1.1''" and ?st2' = "snd ?u"]
  from t h1 h2 h3 have
    "documents (snd ?r) ''doc-1''
       = Some (example_document\<lparr>doc_content := Some (ver_content example_snapshot),
                                doc_metadata := Some (ver_metadata example_snapshot),
                                doc_updated_at := now (example_env no_fault)\<rparr>)"
    "versions (snd ?r) = versions example_history"
    by blast+
  moreover from t h7 have "length (versions example_history) < length (versions (snd ?u))" by blast
  moreover from t h1 h2 h4 h5 h6 have "\<exists>st''. ?r = (Inr (ver_version example_snapshot), st'')" by blast
  ultimately show ?thesis using h1 h2 f g by blast
qed

section \<open>The baseline snapshot\<close>

lemma strip_nonempty_iff: "strip s \<noteq> [] \<longleftrightarrow> (\<exists>c\<in>set s. \<not> is_space c)"
proof -
  have "strip s \<noteq> [] \<longleftrightarrow> dropWhile is_space (rev (dropWhile is_space s)) \<noteq> []"
    by (simp add: strip_def)
  also have "\<dots> \<longleftrightarrow> (\<exists>c\<in>set (dropWhile is_space s). \<not> is_space c)"
    by (simp add: dropWhile_eq_Nil_conv)
  also have "\<dots> \<longleftrightarrow> (\<exists>c\<in>set s. \<not> is_space c)"
  proof
    assume "\<exists>c\<in>set (dropWhile is_space s). \<not> is_space c"
    then show "\<exists>c\<in>set s. \<not> is_space c" by (meson set_dropWhileD)
  next
    assume "\<exists>c\<in>set s. \<not> is_space c"
    then have "dropWhile is_space s \<noteq> []" by (simp add: dropWhile_eq_Nil_conv)
    then have "hd (dropWhile is_space s) \<in> set (dropWhile is_space s)"
      and "\<not> is_space (hd (dropWhile is_space s))"
      by (simp_all add: hd_dropWhile)
    then show "\<exists>c\<in>set (dropWhile is_space s). \<not> is_space c" by blast
  qed
  finally show ?thesis .
qed

lemma strip_strip_nonempty: "strip s \<noteq> [] \<Longrightarrow> strip (strip s) \<noteq> []"
proof -
  assume a: "strip s \<noteq> []"
  then have "dropWhile is_space (rev (dropWhile is_space s)) \<noteq> []" by (simp add: strip_def)
  then have "\<not> is_space (hd (dropWhile is_space (rev (dropWhile is_space s))))"
    by (simp add: hd_dropWhile)
  moreover have "hd (dropWhile is_space (rev (dropWhile is_space s))) = last (strip s)"
    using a by (simp add: strip_def last_rev)
  ultimately have "\<not> is_space (last (strip s))" by simp
  moreover have "last (strip s) \<in> set (strip s)" using a by simp
  ultimately show ?thesis unfolding strip_nonempty_iff [of "strip s"] by blast
qed

lemma bump_version_nonblank: "strip (bump_version cv b) \<noteq> []"
proof -
  obtain major minor where p: "parse_version cv = (major, minor)" by (cases "parse_version cv")
  have "CHR ''.'' \<in> set (bump_version cv b)"
    by (simp add: bump_version_def p)
  then show ?thesis unfolding strip_nonempty_iff using dot_not_space by blast
qed

lemma next_version_nonblank: "strip (next_version v cv b) \<noteq> []"
  by (auto simp: next_version_def bump_version_nonblank strip_strip_nonempty split: option.splits)

lemma ensure_baseline_result:
  assumes "ensure_baseline e d cb doc cv st = (cv', st')"
  shows "st' = st \<or>
         (\<not> recorded d (prev_version cv) st \<and>
          st' = st\<lparr>versions := versions st @
                  [(baseline_row d cb doc (prev_version cv))\<lparr>ver_id := new_id e (length (versions st))\<rparr>]\<rparr>)"
  using assms
  by (auto simp: ensure_baseline_def Let_def select_version_exists_def insert_version_def recorded_def
      split: sum.splits bool.splits option.splits if_splits)

lemma ensure_baseline_no_fault:
  assumes "fault e SelectVersionExists = None" and "fault e InsertBaseline = None"
  shows "ensure_baseline e d cb doc cv st =
     (if recorded d (prev_version cv) st then (cv, st)
      else (if truthy cv then cv else JStr (prev_version cv),
            st\<lparr>versions := versions st @
                  [(baseline_row d cb doc (prev_version cv))\<lparr>ver_id := new_id e (length (versions st))\<rparr>]\<rparr>))"
  using assms
  by (simp add: ensure_baseline_def Let_def select_version_exists_def insert_version_def recorded_def)

lemma ensure_baseline_recorded:
  "recorded d (prev_version cv) st \<Longrightarrow> ensure_baseline e d cb doc cv st = (cv, st)"
  by (auto simp: ensure_baseline_def Let_def select_version_exists_def recorded_def
      split: option.splits)

lemma meta_get_build_metadata: "meta_get (build_metadata meta nv f raw) ''version'' = JStr nv"
  by (simp add: meta_get_def build_metadata_version)

lemma upload_history:
  assumes up: "upload_new_version e d cb f cs b v st = (Inr nv, st')"
    and doc: "documents st d = Some doc"
  shows "\<exists>base row doc'.
           versions st' = versions st @ base @ [row] \<and>
           (base = [] \<or>
            (\<not> recorded d (current_version_of (meta_or_empty (doc_metadata doc))) st \<and>
             base = [(baseline_row d cb doc (current_version_of (meta_or_empty (doc_metadata doc))))
                       \<lparr>ver_id := new_id e (length (versions st))\<rparr>])) \<and>
           (fault e SelectVersionExists = None \<and> fault e InsertBaseline = None \<and>
            \<not> recorded d (current_version_of (meta_or_empty (doc_metadata doc))) st \<longrightarrow> base \<noteq> []) \<and>
           ver_document_id row = d \<and> ver_version row = nv \<and> ver_change_summary row = cs \<and>
           current_version_of (ver_metadata row) = nv \<and>
           documents st' d = Some doc' \<and> doc_metadata doc' = Some (ver_metadata row)"
proof -
  let ?meta = "meta_or_empty (doc_metadata doc)"
  let ?cv0 = "meta_get ?meta ''version''"
  let ?pv = "current_version_of ?meta"
  let ?brow = "(baseline_row d cb doc ?pv)\<lparr>ver_id := new_id e (length (versions st))\<rparr>"
  from upload_done [OF up] obtain raw content where
    b: "upload_body e d cb f raw content cs b v st = (Inr nv, st')" by blast
  from upload_body_done [OF b] doc obtain base where
    eb: "snd (ensure_baseline e d cb doc ?cv0 st) = st\<lparr>versions := versions st @ base\<rparr>"
    and nv: "nv = next_version v (fst (ensure_baseline e d cb doc ?cv0 st)) b"
    and vs: "versions st' = versions st @ base @
              [(new_version_row d cb f raw content cs nv (build_metadata ?meta nv f raw))
                 \<lparr>ver_id := new_id e (length (versions st @ base))\<rparr>]"
    and ds: "documents st' = (documents st)(d \<mapsto>
              doc\<lparr>doc_content := Some content,
                  doc_metadata := Some (build_metadata ?meta nv f raw),
                  doc_updated_at := now e\<rparr>)"
    by auto
  let ?row = "(new_version_row d cb f raw content cs nv (build_metadata ?meta nv f raw))
                 \<lparr>ver_id := new_id e (length (versions st @ base))\<rparr>"
  obtain cv1 st1 where r: "ensure_baseline e d cb doc ?cv0 st = (cv1, st1)"
    by (cases "ensure_baseline e d cb doc ?cv0 st")
  from eb r have st1: "st1 = st\<lparr>versions := versions st @ base\<rparr>" by simp
  then have v1: "versions st1 = versions st @ base" by simp
  have pv: "prev_version ?cv0 = ?pv" by (simp add: current_version_of_def)
  from ensure_baseline_result [OF r]
  have "versions st1 = versions st \<or>
        (\<not> recorded d ?pv st \<and> versions st1 = versions st @ [?brow])"
    unfolding pv by auto
  then have base: "base = [] \<or> (\<not> recorded d ?pv st \<and> base = [?brow])"
    unfolding v1 by auto
  have ex: "base \<noteq> []"
    if "fault e SelectVersionExists = None" "fault e InsertBaseline = None" "\<not> recorded d ?pv st"
  proof -
    from ensure_baseline_no_fault [OF that(1,2), of d cb doc ?cv0 st] that(3) r
    have "st1 = st\<lparr>versions := versions st @ [?brow]\<rparr>"
      unfolding pv by simp
    then have "versions st1 = versions st @ [?brow]" by simp
    then show ?thesis unfolding v1 by auto
  qed
  have nb: "strip nv \<noteq> []" unfolding nv by (rule next_version_nonblank)
  have cur: "current_version_of (ver_metadata ?row) = nv"
    using nb by (simp add: new_version_row_def current_version_of_def meta_get_build_metadata)
  show ?thesis
    apply (rule exI [of _ base], rule exI [of _ ?row])
    apply (rule exI [of _ "doc\<lparr>doc_content := Some content,
                  doc_metadata := Some (build_metadata ?meta nv f raw),
                  doc_updated_at := now e\<rparr>"])
    using vs base ex cur ds by (simp add: new_version_row_def)
qed

lemma recorded_append:
  "recorded d ver st \<Longrightarrow> versions st' = versions st @ rows \<Longrightarrow> recorded d ver st'"
  by (auto simp: recorded_def list_ex_iff)

lemma recorded_row:
  "row \<in> set (versions st) \<Longrightarrow> ver_document_id row = d \<Longrightarrow> recorded d (ver_version row) st"
  by (auto simp: recorded_def list_ex_iff)

lemma recorded_versions: "versions st' = versions st \<Longrightarrow> recorded d ver st' = recorded d ver st"
  by (simp add: recorded_def)

lemma history_wf_versions: "versions st' = versions st \<Longrightarrow> history_wf d st' = history_wf d st"
  by (simp add: history_wf_def recorded_def)

lemma baseline_row_fields:
  "ver_document_id (baseline_row d cb doc pv) = d"
  "ver_version (baseline_row d cb doc pv) = pv"
  "ver_change_summary (baseline_row d cb doc pv) = ''Initial version snapshot''"
  "ver_content (baseline_row d cb doc pv) = (case doc_content doc of None \<Rightarrow> [] | Some c \<Rightarrow> c)"
  "ver_metadata (baseline_row d cb doc pv) = meta_or_empty (doc_metadata doc)"
  by (simp_all add: baseline_row_def Let_def)

lemma upload_invariant:
  assumes wf: "history_wf d st"
    and up: "upload_new_version e d cb f cs b v st = (Inr nv, st')"
  shows "history_wf d st' \<and> current_recorded d st' \<and>
         length (versions st') \<le> length (versions st) + (if current_recorded d st then 0 else 1) + 1 \<and>
         length (versions st) + 1 \<le> length (versions st')"
proof -
  from upload_done [OF up] obtain raw content where
    b: "upload_body e d cb f raw content cs b v st = (Inr nv, st')" by blast
  from upload_body_done [OF b] obtain doc where doc: "documents st d = Some doc" by blast
  let ?pv = "current_version_of (meta_or_empty (doc_metadata doc))"
  let ?brow = "(baseline_row d cb doc ?pv)\<lparr>ver_id := new_id e (length (versions st))\<rparr>"
  from upload_history [OF up doc] obtain base row doc' where
    vs: "versions st' = versions st @ base @ [row]"
    and base: "base = [] \<or> (\<not> recorded d ?pv st \<and> base = [?brow])"
    and row: "ver_document_id row = d" "ver_version row = nv" "current_version_of (ver_metadata row) = nv"
    and doc': "documents st' d = Some doc'" "doc_metadata doc' = Some (ver_metadata row)"
    by blast
  have rrow: "recorded d nv st'"
    using recorded_row [of row st' d] vs row by simp
  have "recorded d (current_version_of (ver_metadata r)) st'"
    if r: "r \<in> set (versions st')" "ver_document_id r = d" for r
  proof -
    from r(1) vs consider "r \<in> set (versions st)" | "r \<in> set base" | "r = row" by auto
    then show ?thesis
    proof cases
      case 1
      with wf r(2) have "recorded d (current_version_of (ver_metadata r)) st"
        by (auto simp: history_wf_def list_all_iff)
      then show ?thesis using vs by (rule recorded_append)
    next
      case 2
      with base have rb: "r = ?brow" by auto
      then have "current_version_of (ver_metadata r) = ver_version r"
        by (simp add: baseline_row_fields)
      then show ?thesis using recorded_row [OF r(1) r(2)] by simp
    next
      case 3
      then show ?thesis using row rrow by simp
    qed
  qed
  then have wf': "history_wf d st'" by (auto simp: history_wf_def list_all_iff)
  have cur: "current_recorded d st'"
    using doc' row rrow by (simp add: current_recorded_def meta_or_empty_def)
  have "length base \<le> (if current_recorded d st then 0 else 1)"
    using base doc by (auto simp: current_recorded_def)
  then show ?thesis using wf' cur vs by simp
qed

lemma rollback_invariant:
  assumes wf: "history_wf d st"
    and rb: "rollback_version e d vid st = (Inr rv, st')"
  shows "versions st' = versions st \<and> history_wf d st' \<and> current_recorded d st'"
proof -
  from rollback_body_done [OF rollback_done [OF rb]] obtain ver doc where
    ver: "find (\<lambda>r. ver_document_id r = d \<and> ver_id r = vid) (versions st) = Some ver"
    and vs: "versions st' = versions st"
    and ds: "documents st' = (documents st)(d \<mapsto>
              doc\<lparr>doc_content := Some (ver_content ver),
                  doc_metadata := Some (ver_metadata ver),
                  doc_updated_at := now e\<rparr>)"
    by blast
  from ver have "ver \<in> set (versions st)" "ver_document_id ver = d"
    by (auto simp: find_Some_iff)
  with wf have "recorded d (current_version_of (ver_metadata ver)) st"
    by (auto simp: history_wf_def list_all_iff)
  then have "recorded d (current_version_of (ver_metadata ver)) st'"
    by (simp add: recorded_versions [OF vs])
  then have "current_recorded d st'"
    using ds by (simp add: current_recorded_def meta_or_empty_def)
  then show ?thesis using vs wf by (simp add: history_wf_versions [OF vs])
qed

lemma handle_invariant:
  assumes wf: "history_wf d st"
    and h: "handle d r st = (ok, st')"
  shows "history_wf d st' \<and>
         length (versions st') + (if current_recorded d st' then 0 else 1)
           \<le> length (versions st) + (if current_recorded d st then 0 else 1) + (if ok then 1 else 0) \<and>
         length (versions st) + (if ok then 1 else 0) \<le> length (versions st')"
proof (cases r)
  case (Upload e cb f cs b v)
  show ?thesis
  proof (cases "upload_new_version e d cb f cs b v st")
    case (Pair res st1)
    show ?thesis
    proof (cases res)
      case (Inl err)
      with Pair have "st1 = st" by (simp add: upload_failed)
      with h Upload Pair Inl wf show ?thesis by simp
    next
      case (Inr nv)
      with h Upload Pair have ok: "ok" "st' = st1" by simp_all
      from upload_invariant [OF wf] Pair Inr ok show ?thesis by simp
    qed
  qed
next
  case (Rollback e vid)
  show ?thesis
  proof (cases "rollback_version e d vid st")
    case (Pair res st1)
    show ?thesis
    proof (cases res)
      case (Inl err)
      with Pair have "st1 = st" by (simp add: rollback_failed)
      with h Rollback Pair wf show ?thesis by simp
    next
      case (Inr rv)
      with h Rollback Pair have ok: "\<not> ok" "st' = st1" by simp_all
      from rollback_invariant [OF wf] Pair Inr ok show ?thesis by simp
    qed
  qed
qed

lemma handle_all_invariant:
  assumes "history_wf d st" and "handle_all d rs st = (n, st')"
  shows "length (versions st') + (if current_recorded d st' then 0 else 1)
           \<le> length (versions st) + (if current_recorded d st then 0 else 1) + n \<and>
         length (versions st) + n \<le> length (versions st')"
  using assms
proof (induction rs arbitrary: st n st')
  case Nil
  then show ?case by simp
next
  case (Cons r rs)
  obtain ok st1 where h: "handle d r st = (ok, st1)" by (cases "handle d r st")
  obtain m st2 where ha: "handle_all d rs st1 = (m, st2)" by (cases "handle_all d rs st1")
  from Cons.prems(2) h ha have n: "n = (if ok then 1 else 0) + m" and st': "st' = st2" by simp_all
  from handle_invariant [OF Cons.prems(1) h] have
    wf1: "history_wf d st1"
    and s1: "length (versions st1) + (if current_recorded d st1 then 0 else 1)
           \<le> length (versions st) + (if current_recorded d st then 0 else 1) + (if ok then 1 else 0)"
    and s2: "length (versions st) + (if ok then 1 else 0) \<le> length (versions st1)"
    by simp_all
  from Cons.IH [OF wf1 ha] have
    t1: "length (versions st2) + (if current_recorded d st2 then 0 else 1)
           \<le> length (versions st1) + (if current_recorded d st1 then 0 else 1) + m"
    and t2: "length (versions st1) + m \<le> length (versions st2)"
    by simp_all
  from s1 s2 t1 t2 show ?case unfolding n st' by linarith
qed

lemma two_uploads:
  assumes doc: "documents st1 d = Some doc"
    and u1: "upload_new_version e1 d cb1 f1 cs1 b1 v1 st1 = (Inr nv1, st2)"
    and u2: "upload_new_version e2 d cb2 f2 cs2 b2 v2 st2 = (Inr nv2, st3)"
  shows "\<exists>base row1 row2.
           versions st3 = versions st1 @ base @ [row1, row2] \<and>
           (base = [] \<or>
            (\<not> recorded d (current_version_of (meta_or_empty (doc_metadata doc))) st1 \<and>
             base = [(baseline_row d cb1 doc (current_version_of (meta_or_empty (doc_metadata doc))))
                       \<lparr>ver_id := new_id e1 (length (versions st1))\<rparr>])) \<and>
           (fault e1 SelectVersionExists = None \<and> fault e1 InsertBaseline = None \<and>
            \<not> recorded d (current_version_of (meta_or_empty (doc_metadata doc))) st1 \<longrightarrow> base \<noteq> []) \<and>
           ver_version row1 = nv1 \<and> ver_change_summary row1 = cs1 \<and>
           ver_version row2 = nv2 \<and> ver_change_summary row2 = cs2"
proof -
  let ?pv = "current_version_of (meta_or_empty (doc_metadata doc))"
  from upload_history [OF u1 doc] obtain base row1 doc' where
    vs: "versions st2 = versions st1 @ base @ [row1]"
    and base: "base = [] \<or>
            (\<not> recorded d ?pv st1 \<and>
             base = [(baseline_row d cb1 doc ?pv)\<lparr>ver_id := new_id e1 (length (versions st1))\<rparr>])"
    and ex: "fault e1 SelectVersionExists = None \<and> fault e1 InsertBaseline = None \<and>
            \<not> recorded d ?pv st1 \<longrightarrow> base \<noteq> []"
    and row1: "ver_document_id row1 = d" "ver_version row1 = nv1" "ver_change_summary row1 = cs1"
              "current_version_of (ver_metadata row1) = nv1"
    and doc': "documents st2 d = Some doc'" "doc_metadata doc' = Some (ver_metadata row1)"
    by blast
  have rec: "recorded d (current_version_of (meta_or_empty (doc_metadata doc'))) st2"
    using recorded_row [of row1 st2 d] vs row1 doc' by (simp add: meta_or_empty_def)
  from upload_history [OF u2 doc'(1)] rec obtain row2 where
    vs2: "versions st3 = versions st2 @ [row2]"
    and row2: "ver_version row2 = nv2" "ver_change_summary row2 = cs2"
    by auto
  show ?thesis
    apply (rule exI [of _ base], rule exI [of _ row1], rule exI [of _ row2])
    using vs vs2 base ex row1 row2 by simp
qed

text \<open>
  Claim C2. Before it records a new version, \<open>upload_new_version\<close> looks for a history row
  of the document with the current version string and inserts the baseline row, with
  the summary "Initial version snapshot" and the document's content and metadata as
  they are before the update, only when there is none. Two uploads in a row on one
  document add the two new versions and, before them, at most one baseline row: exactly
  one when the current version had no row and the two baseline statements of the first
  upload did not fail, none otherwise. Over any sequence of uploads and rollbacks on the
  document, starting from a history every row of which has its own version recorded,
  the history grows by one row per recorded upload and by at most one row more.
\<close>

theorem baseline_created_once:
  "(fault e SelectVersionExists = None \<and> fault e InsertBaseline = None \<longrightarrow>
      ensure_baseline e d cb doc cv st =
        (if recorded d (prev_version cv) st then (cv, st)
         else (if truthy cv then cv else JStr (prev_version cv),
               st\<lparr>versions := versions st @
                 [(baseline_row d cb doc (prev_version cv))\<lparr>ver_id := new_id e (length (versions st))\<rparr>]\<rparr>)))
   \<and> (recorded d0 (prev_version cv0) st0 \<longrightarrow> ensure_baseline e0 d0 cb0 doc0 cv0 st0 = (cv0, st0))
   \<and> ver_document_id (baseline_row d cb doc pv) = d
   \<and> ver_version (baseline_row d cb doc pv) = pv
   \<and> ver_change_summary (baseline_row d cb doc pv) = ''Initial version snapshot''
   \<and> ver_content (baseline_row d cb doc pv) = (case doc_content doc of None \<Rightarrow> [] | Some c \<Rightarrow> c)
   \<and> ver_metadata (baseline_row d cb doc pv) = meta_or_empty (doc_metadata doc)
   \<and> (documents st1 d1 = Some doc1 \<and>
      upload_new_version e1 d1 cb1 f1 cs1 b1 v1 st1 = (Inr nv1, st2) \<and>
      upload_new_version e2 d1 cb2 f2 cs2 b2 v2 st2 = (Inr nv2, st3) \<longrightarrow>
        (\<exists>base row1 row2.
           versions st3 = versions st1 @ base @ [row1, row2] \<and>
           (base = [] \<or>
            (\<not> recorded d1 (current_version_of (meta_or_empty (doc_metadata doc1))) st1 \<and>
             base = [(baseline_row d1 cb1 doc1 (current_version_of (meta_or_empty (doc_metadata doc1))))
                       \<lparr>ver_id := new_id e1 (length (versions st1))\<rparr>])) \<and>
           (fault e1 SelectVersionExists = None \<and> fault e1 InsertBaseline = None \<and>
            \<not> recorded d1 (current_version_of (meta_or_empty (doc_metadata doc1))) st1 \<longrightarrow> base \<noteq> []) \<and>
           ver_version row1 = nv1 \<and> ver_change_summary row1 = cs1 \<and>
           ver_version row2 = nv2 \<and> ver_change_summary row2 = cs2))
   \<and> (history_wf d3 st4 \<and> handle_all d3 reqs st4 = (n, st5) \<longrightarrow>
        length (versions st5) \<le> length (versions st4) + n + 1 \<and>
        length (versions st4) + n \<le> length (versions st5) \<and>
        (current_recorded d3 st4 \<longrightarrow> length (versions st5) = length (versions st4) + n))"
proof (intro conjI impI)
  show "ensure_baseline e d cb doc cv st =
        (if recorded d (prev_version cv) st then (cv, st)
         else (if truthy cv then cv else JStr (prev_version cv),
               st\<lparr>versions := versions st @
                 [(baseline_row d cb doc (prev_version cv))\<lparr>ver_id := new_id e (length (versions st))\<rparr>]\<rparr>))"
    if "fault e SelectVersionExists = None \<and> fault e InsertBaseline = None"
    using that by (intro ensure_baseline_no_fault) simp_all
  show "ensure_baseline e0 d0 cb0 doc0 cv0 st0 = (cv0, st0)" if "recorded d0 (prev_version cv0) st0"
    using that by (rule ensure_baseline_recorded)
  show "ver_document_id (baseline_row d cb doc pv) = d"
    "ver_version (baseline_row d cb doc pv) = pv"
    "ver_change_summary (baseline_row d cb doc pv) = ''Initial version snapshot''"
    "ver_content (baseline_row d cb doc pv) = (case doc_content doc of None \<Rightarrow> [] | Some c \<Rightarrow> c)"
    "ver_metadata (baseline_row d cb doc pv) = meta_or_empty (doc_metadata doc)"
    by (rule baseline_row_fields)+
  show "\<exists>base row1 row2.
           versions st3 = versions st1 @ base @ [row1, row2] \<and>
           (base = [] \<or>
            (\<not> recorded d1 (current_version_of (meta_or_empty (doc_metadata doc1))) st1 \<and>
             base = [(baseline_row d1 cb1 doc1 (current_version_of (meta_or_empty (doc_metadata doc1))))
                       \<lparr>ver_id := new_id e1 (length (versions st1))\<rparr>])) \<and>
           (fault e1 SelectVersionExists = None \<and> fault e1 InsertBaseline = None \<and>
            \<not> recorded d1 (current_version_of (meta_or_empty (doc_metadata doc1))) st1 \<longrightarrow> base \<noteq> []) \<and>
           ver_version row1 = nv1 \<and> ver_change_summary row1 = cs1 \<and>
           ver_version row2 = nv2 \<and> ver_change_summary row2 = cs2"
    if "documents st1 d1 = Some doc1 \<and>
      upload_new_version e1 d1 cb1 f1 cs1 b1 v1 st1 = (Inr nv1, st2) \<and>
      upload_new_version e2 d1 cb2 f2 cs2 b2 v2 st2 = (Inr nv2, st3)"
    using that two_uploads [of st1 d1 doc1 e1 cb1 f1 cs1 b1 v1 nv1 st2 e2 cb2 f2 cs2 b2 v2 nv2 st3]
    by blast
next
  assume a: "history_wf d3 st4 \<and> handle_all d3 reqs st4 = (n, st5)"
  then have wf: "history_wf d3 st4" and h: "handle_all d3 reqs st4 = (n, st5)" by simp_all
  from handle_all_invariant [OF wf h] have
    s: "length (versions st5) + (if current_recorded d3 st5 then 0 else 1)
           \<le> length (versions st4) + (if current_recorded d3 st4 then 0 else 1) + n"
    and t: "length (versions st4) + n \<le> length (versions st5)"
    by simp_all
  from s show "length (versions st5) \<le> length (versions st4) + n + 1" by (simp split: if_splits)
  from t show "length (versions st4) + n \<le> length (versions st5)" .
  show "length (versions st5) = length (versions st4) + n" if "current_recorded d3 st4"
    using that s t by (simp split: if_splits)
qed

theorem baseline_created_once_witness:
  "map ver_change_summary
       (versions (snd (ensure_baseline (example_env no_fault) ''doc-1'' None example_document
                         (JStr ''1.0'') example_store)))
     = [''Initial version snapshot'']
   \<and> recorded ''doc-1'' (prev_version (JStr ''0.9'')) example_history
   \<and> ensure_baseline (example_env (fault_at InsertBaseline)) ''doc-1'' None example_document
         (JStr ''0.9'') example_history
     = (JStr ''0.9'', example_history)
   \<and> fst (upload_new_version (example_env no_fault) ''doc-1'' None example_file
            ''fix typo'' ''minor'' None example_store) = Inr ''1.1''
   \<and> fst (upload_new_version (example_env no_fault) ''doc-1'' None example_file
            ''add section'' ''major'' None
            (snd (upload_new_version (example_env no_fault) ''doc-1'' None example_file
                    ''fix typo'' ''minor'' None example_store))) = Inr ''2.0''
   \<and> length (versions
         (snd (upload_new_version (example_env no_fault) ''doc-1'' None example_file
            ''add section'' ''major'' None
            (snd (upload_new_version (example_env no_fault) ''doc-1'' None example_file
                    ''fix typo'' ''minor'' None example_store))))) = 3
   \<and> history_wf ''doc-1'' example_store
   \<and> fst (handle_all ''doc-1''
            [Upload (example_env no_fault) None example_file ''fix typo'' ''minor'' None,
             Rollback (example_env no_fault) ''v0'',
             Upload (example_env no_fault) None example_file ''add section'' ''minor'' None]
            example_store) = 2
   \<and> length (versions (snd (handle_all ''doc-1''
            [Upload (example_env no_fault) None example_file ''fix typo'' ''minor'' None,
             Rollback (example_env no_fault) ''v0'',
             Upload (example_env no_fault) None example_file ''add section'' ''minor'' None]
            example_store))) \<le> 3"
proof -
  let ?e = "example_env no_fault"
  let ?u1 = "upload_new_version ?e ''doc-1'' None example_file ''fix typo'' ''minor'' None example_store"
  let ?u2 = "upload_new_version ?e ''doc-1'' None example_file ''add section'' ''major'' None (snd ?u1)"
  let ?reqs = "[Upload ?e None example_file ''fix typo'' ''minor'' None,
             Rollback ?e ''v0'',
             Upload ?e None example_file ''add section'' ''minor'' None]"
  let ?h = "handle_all ''doc-1'' ?reqs example_store"
  have nf: "fault ?e SelectVersionExists = None \<and> fault ?e InsertBaseline = None"
    by (simp add: example_env_def no_fault_def)
  have nr: "\<not> recorded ''doc-1'' (prev_version (JStr ''1.0'')) example_store" by code_simp
  have nr': "\<not> recorded ''doc-1'' (current_version_of (meta_or_empty (doc_metadata example_document)))
                example_store" by code_simp
  have r0: "recorded ''doc-1'' (prev_version (JStr ''0.9'')) example_history" by code_simp
  have dc: "documents example_store ''doc-1'' = Some example_document"
    by (simp add: example_store_def)
  have v0: "versions example_store = []" by (simp add: example_store_def)
  have f1: "fst ?u1 = Inr ''1.1''" by code_simp
  then have h1: "?u1 = (Inr ''1.1'', snd ?u1)" by (simp add: prod_eq_iff)
  have f2: "fst ?u2 = Inr ''2.0''" by code_simp
  then have h2: "?u2 = (Inr ''2.0'', snd ?u2)" by (simp add: prod_eq_iff)
  have wf: "history_wf ''doc-1'' example_store" by code_simp
  have f3: "fst ?h = 2" by code_simp
  then have h3: "?h = (2, snd ?h)" by (simp add: prod_eq_iff)
  note t = baseline_created_once [where e = ?e and d = "''doc-1''" and cb = None
      and doc = example_document and cv = "JStr ''1.0''" and st = example_store
      and ?e0.0 = "example_env (fault_at InsertBaseline)" and ?d0.0 = "''doc-1''" and ?cb0.0 = None
      and ?doc0.0 = example_document and ?cv0.0 = "JStr ''0.9''" and ?st0.0 = example_history
      and pv = "''1.0''"
      and ?st1.0 = example_store and ?d1.0 = "''doc-1''" and ?doc1.0 = example_document
      and ?e1.0 = ?e and ?cb1.0 = None and ?f1.0 = example_file and ?cs1.0 = "''fix typo''"
      and ?b1.0 = "''minor''" and ?v1.0 = None and ?nv1.0 = "''1.1''" and ?st2.0 = "snd ?u1"
      and ?e2.0 = ?e and ?cb2.0 = None and ?f2.0 = example_file and ?cs2.0 = "''add section''"
      and ?b2.0 = "''major''" and ?v2.0 = None and ?nv2.0 = "''2.0''" and ?st3.0 = "snd ?u2"
      and ?d3.0 = "''doc-1''" and ?st4.0 = example_store and reqs = ?reqs and n = 2
      and ?st5.0 = "snd ?h"]
  from t nf nr have a1: "map ver_change_summary
       (versions (snd (ensure_baseline ?e ''doc-1'' None example_document (JStr ''1.0'') example_store)))
     = [''Initial version snapshot'']"
    by (simp add: v0)
  from t r0 have a2: "ensure_baseline (example_env (fault_at InsertBaseline)) ''doc-1'' None
        example_document (JStr ''0.9'') example_history = (JStr ''0.9'', example_history)"
    by blast
  from t dc h1 h2 obtain base row1 row2 where
    "versions (snd ?u2) = versions example_store @ base @ [row1, row2]"
    and "base \<noteq> []"
    and "base = [] \<or> (\<exists>x. base = [x])"
    using nf nr' by blast
  then have b: "length (versions (snd ?u2)) = 3" by (auto simp: v0)
  from t wf h3 have c: "length (versions (snd ?h)) \<le> 3" by (simp add: v0)
  from a1 r0 a2 f1 f2 b wf f3 c show ?thesis by blast
qed

section \<open>Comparing versions\<close>

lemma concat_splitlines_from: "concat (splitlines_from cur s) = cur @ s"
proof (induction cur s rule: splitlines_from.induct)
  case (1 cur)
  then show ?case by simp
next
  case (2 cur c cs)
  then show ?case by (cases cs) auto
qed

lemma concat_splitlines: "concat (splitlines_keepends s) = s"
  by (simp add: splitlines_keepends_def concat_splitlines_from)

lemma get_content_current:
  "fault e SelectContent = None \<Longrightarrow>
     get_content e d (Some ''current'') st =
       Inr (case documents st d of
              None \<Rightarrow> []
            | Some doc \<Rightarrow> (case doc_content doc of None \<Rightarrow> [] | Some c \<Rightarrow> c))"
  by (simp add: get_content_def)

lemma get_content_version:
  "fault e SelectContent = None \<Longrightarrow> sel \<noteq> [] \<Longrightarrow> sel \<noteq> ''current'' \<Longrightarrow>
     get_content e d (Some sel) st =
       Inr (case find (\<lambda>r. ver_document_id r = d \<and> ver_id r = sel) (versions st) of
              None \<Rightarrow> []
            | Some row \<Rightarrow> ver_content row)"
  by (simp add: get_content_def select_version_def split: option.splits)

lemma get_content_total:
  "fault e SelectContent = None \<Longrightarrow> \<exists>c. get_content e d sel st = Inr c"
  by (auto simp: get_content_def select_version_def split: option.splits)

lemma get_content_error: "get_content e d sel st = Inl err \<Longrightarrow> \<exists>msg. err = Raised msg"
  by (auto simp: get_content_def select_version_def split: option.splits if_splits)

lemma compare_versions_error:
  assumes "compare_versions e d p st = Inl err"
  shows "err = HTTPException 400 ''right version is required'' \<or> (\<exists>msg. err = HTTPException 500 msg)"
proof -
  have "to_http x = HTTPException 500 msg" if "x = Raised msg" for x msg using that by simp
  then have th: "\<exists>msg. to_http x = HTTPException 500 msg" if "get_content e d s st = Inl x" for x s
    using get_content_error [OF that] by blast
  from assms show ?thesis
    unfolding compare_versions_def Let_def
    by (auto split: option.splits if_splits sum.splits dest: th)
qed

lemma compare_versions_result:
  assumes nf: "fault e SelectContent = None"
    and rs: "str_or (right p) (right_version_id p) = Some rs" "rs \<noteq> []"
  shows "\<exists>l r. get_content e d (str_or (str_or (left p) (left_version_id p)) (Some ''current'')) st = Inr l \<and>
           get_content e d (Some rs) st = Inr r \<and>
           compare_versions e d p st =
             Inr (concat (unified_diff e (splitlines_keepends l) (splitlines_keepends r)
                    (case str_or (str_or (left p) (left_version_id p)) (Some ''current'') of
                       None \<Rightarrow> ''None'' | Some ls \<Rightarrow> ls) rs))"
proof -
  from get_content_total [OF nf] obtain l where
    l: "get_content e d (str_or (str_or (left p) (left_version_id p)) (Some ''current'')) st = Inr l"
    by blast
  from get_content_total [OF nf] obtain r where r: "get_content e d (Some rs) st = Inr r" by blast
  show ?thesis
    apply (rule exI [of _ l], rule exI [of _ r])
    using l r rs by (simp add: compare_versions_def Let_def)
qed

text \<open>
  Claim C9, as amended. The selector "current" resolves to the document's content and
  any other selector to the content of the snapshot with that identifier. Resolving a
  selector never fails with a not-found error: an unknown snapshot, an unknown document
  and a null content all resolve to the empty string, and so does an absent selector.
  \<open>compare_versions\<close> rejects a request without a right selector with status 400, takes
  "current" for an absent left selector, turns a database error into status 500, and
  otherwise returns the joined output of the unified diff of the two contents split into
  lines that keep their line ends (joined again, the lines give the content back).
\<close>

theorem compare_versions_resolution:
  "(fault e SelectContent = None \<longrightarrow>
      get_content e d (Some ''current'') st =
        Inr (case documents st d of
               None \<Rightarrow> []
             | Some doc \<Rightarrow> (case doc_content doc of None \<Rightarrow> [] | Some c \<Rightarrow> c)))
   \<and> (fault e SelectContent = None \<and> sel \<noteq> [] \<and> sel \<noteq> ''current'' \<longrightarrow>
        get_content e d (Some sel) st =
          Inr (case find (\<lambda>r. ver_document_id r = d \<and> ver_id r = sel) (versions st) of
                 None \<Rightarrow> []
               | Some row \<Rightarrow> ver_content row))
   \<and> get_content e d None st = Inr []
   \<and> get_content e d (Some []) st = Inr []
   \<and> (str_or (right p1) (right_version_id p1) = None \<or> str_or (right p1) (right_version_id p1) = Some []
        \<longrightarrow> compare_versions e d p1 st = Inl (HTTPException 400 ''right version is required''))
   \<and> (fault e SelectContent = None \<and> str_or (right p2) (right_version_id p2) = Some rs \<and> rs \<noteq> [] \<longrightarrow>
        (\<exists>l r. get_content e d (str_or (str_or (left p2) (left_version_id p2)) (Some ''current'')) st = Inr l \<and>
           get_content e d (Some rs) st = Inr r \<and>
           compare_versions e d p2 st =
             Inr (concat (unified_diff e (splitlines_keepends l) (splitlines_keepends r)
                    (case str_or (str_or (left p2) (left_version_id p2)) (Some ''current'') of
                       None \<Rightarrow> ''None'' | Some ls \<Rightarrow> ls) rs))))
   \<and> (compare_versions e3 d3 p3 st3 = Inl err \<longrightarrow>
        err = HTTPException 400 ''right version is required'' \<or> (\<exists>msg. err = HTTPException 500 msg))
   \<and> concat (splitlines_keepends s) = s"
proof (intro conjI impI)
  show "get_content e d (Some ''current'') st =
        Inr (case documents st d of
               None \<Rightarrow> []
             | Some doc \<Rightarrow> (case doc_content doc of None \<Rightarrow> [] | Some c \<Rightarrow> c))"
    if "fault e SelectContent = None" using that by (rule get_content_current)
  show "get_content e d (Some sel) st =
          Inr (case find (\<lambda>r. ver_document_id r = d \<and> ver_id r = sel) (versions st) of
                 None \<Rightarrow> []
               | Some row \<Rightarrow> ver_content row)"
    if "fault e SelectContent = None \<and> sel \<noteq> [] \<and> sel \<noteq> ''current''"
    using that by (intro get_content_version) simp_all
  show "get_content e d None st = Inr []" by (simp add: get_content_def)
  show "get_content e d (Some []) st = Inr []" by (simp add: get_content_def)
  show "compare_versions e d p1 st = Inl (HTTPException 400 ''right version is required'')"
    if "str_or (right p1) (right_version_id p1) = None \<or> str_or (right p1) (right_version_id p1) = Some []"
    using that by (auto simp: compare_versions_def Let_def)
  show "\<exists>l r. get_content e d (str_or (str_or (left p2) (left_version_id p2)) (Some ''current'')) st = Inr l \<and>
           get_content e d (Some rs) st = Inr r \<and>
           compare_versions e d p2 st =
             Inr (concat (unified_diff e (splitlines_keepends l) (splitlines_keepends r)
                    (case str_or (str_or (left p2) (left_version_id p2)) (Some ''current'') of
                       None \<Rightarrow> ''None'' | Some ls \<Rightarrow> ls) rs))"
    if "fault e SelectContent = None \<and> str_or (right p2) (right_version_id p2) = Some rs \<and> rs \<noteq> []"
    using that compare_versions_result [of e p2 rs d st] by blast
  show "err = HTTPException 400 ''right version is required'' \<or> (\<exists>msg. err = HTTPException 500 msg)"
    if "compare_versions e3 d3 p3 st3 = Inl err" using that by (rule compare_versions_error)
  show "concat (splitlines_keepends s) = s" by (rule concat_splitlines)
qed

theorem compare_versions_resolution_witness:
  "get_content (example_env no_fault) ''doc-1'' (Some ''current'') example_history = Inr [111, 108, 100]
   \<and> get_content (example_env no_fault) ''doc-1'' (Some ''v0'') example_history
       = Inr [100, 114, 97, 102, 116]
   \<and> compare_versions (example_env no_fault) ''doc-1''
        \<lparr>left_version_id = None, right_version_id = None, left = Some ''current'', right = None\<rparr>
        example_history
       = Inl (HTTPException 400 ''right version is required'')
   \<and> compare_versions (example_env no_fault) ''doc-1''
        \<lparr>left_version_id = None, right_version_id = Some ''v0'', left = None, right = None\<rparr>
        example_history
       = Inr [111, 108, 100, 100, 114, 97, 102, 116]
   \<and> compare_versions (example_env (fault_at SelectContent)) ''doc-1''
        \<lparr>left_version_id = None, right_version_id = Some ''v0'', left = None, right = None\<rparr>
        example_history
       = Inl (HTTPException 500 ''connection lost'')"
proof -
  let ?e = "example_env no_fault"
  let ?p1 = "\<lparr>left_version_id = None, right_version_id = None, left = Some ''current'', right = None\<rparr>"
  let ?p2 = "\<lparr>left_version_id = None, right_version_id = Some ''v0'', left = None, right = None\<rparr>"
  let ?c3 = "compare_versions (example_env (fault_at SelectContent)) ''doc-1'' ?p2 example_history"
  have nf: "fault ?e SelectContent = None" by (simp add: example_env_def no_fault_def)
  have s1: "str_or (right ?p1) (right_version_id ?p1) = None" by (simp add: str_or_def)
  have s2: "str_or (right ?p2) (right_version_id ?p2) = Some ''v0''" by (simp add: str_or_def)
  have s3: "str_or (str_or (left ?p2) (left_version_id ?p2)) (Some ''current'') = Some ''current''"
    by (simp add: str_or_def)
  have ud: "unified_diff ?e a b x y = a @ b" for a b x y by (simp add: example_env_def)
  have f3: "?c3 = Inl (HTTPException 500 ''connection lost'')" by code_simp
  note t = compare_versions_resolution [where e = ?e and d = "''doc-1''" and st = example_history
      and sel = "''v0''" and ?p1.0 = ?p1 and ?p2.0 = ?p2 and rs = "''v0''"
      and ?e3.0 = "example_env (fault_at SelectContent)" and ?d3.0 = "''doc-1''" and ?p3.0 = ?p2
      and ?st3.0 = example_history and err = "HTTPException 500 ''connection lost''"]
  from t nf have a1: "get_content ?e ''doc-1'' (Some ''current'') example_history = Inr [111, 108, 100]"
    by (simp add: example_history_def example_store_def example_document_def)
  from t nf have a2: "get_content ?e ''doc-1'' (Some ''v0'') example_history = Inr [100, 114, 97, 102, 116]"
    by (simp add: example_history_def example_snapshot_def)
  from t s1 have a3: "compare_versions ?e ''doc-1'' ?p1 example_history
       = Inl (HTTPException 400 ''right version is required'')" by blast
  have ne: "''v0'' \<noteq> []" by simp
  note c6 = t [THEN conjunct2, THEN conjunct2, THEN conjunct2, THEN conjunct2, THEN conjunct2,
      THEN conjunct1]
  from c6 nf s2 ne obtain l r where
    "get_content ?e ''doc-1'' (str_or (str_or (left ?p2) (left_version_id ?p2)) (Some ''current''))
       example_history = Inr l"
    "get_content ?e ''doc-1'' (Some ''v0'') example_history = Inr r"
    "compare_versions ?e ''doc-1'' ?p2 example_history =
       Inr (concat (unified_diff ?e (splitlines_keepends l) (splitlines_keepends r)
              (case str_or (str_or (left ?p2) (left_version_id ?p2)) (Some ''current'') of
                 None \<Rightarrow> ''None'' | Some ls \<Rightarrow> ls) ''v0''))"
    by blast
  with a1 a2 have a4: "compare_versions ?e ''doc-1'' ?p2 example_history
       = Inr (concat (splitlines_keepends [111, 108, 100] @ splitlines_keepends [100, 114, 97, 102, 116]))"
    unfolding s3 ud by simp
  have a4': "compare_versions ?e ''doc-1'' ?p2 example_history = Inr [111, 108, 100, 100, 114, 97, 102, 116]"
    unfolding a4 using t by simp
  from a1 a2 a3 a4' f3 show ?thesis by blast
qed

text \<open>The claim as stated fails on a selector that names no snapshot: it resolves to the
  empty string, and the comparison succeeds.\<close>

theorem unknown_selector_counterexample:
  "get_content (example_env no_fault) ''doc-1'' (Some ''no-such-version'') example_history = Inr []
   \<and> compare_versions (example_env no_fault) ''doc-1''
        \<lparr>left_version_id = None, right_version_id = Some ''no-such-version'', left = None, right = None\<rparr>
        example_history
       = Inr [111, 108, 100]"
  by code_simp

section \<open>The recognition loop\<close>

lemma tesseract_loop_failed_prefix:
  assumes "\<forall>l\<in>set failed. image_to_string e p l (tess_config e) = TessFailed (reason l)"
  shows "tesseract_loop e p errors (failed @ rest) =
           (fst (tesseract_loop e p (errors @ map (\<lambda>l. error_msg l (reason l)) failed) rest),
            map (Recognized p) failed @
              snd (tesseract_loop e p (errors @ map (\<lambda>l. error_msg l (reason l)) failed) rest))"
  using assms
proof (induction failed arbitrary: errors)
  case Nil
  then show ?case by simp
next
  case (Cons l failed)
  then have "image_to_string e p l (tess_config e) = TessFailed (reason l)"
    and "\<forall>l\<in>set failed. image_to_string e p l (tess_config e) = TessFailed (reason l)"
    by simp_all
  with Cons.IH [of "errors @ [error_msg l (reason l)]"] show ?case
    by (simp add: split_beta)
qed

lemma run_tesseract_winner:
  assumes "pytesseract_present e"
    and "\<forall>l\<in>set failed. image_to_string e (prepare img) l (tess_config e) = TessFailed (reason l)"
    and "image_to_string e (prepare img) lang (tess_config e) = TessText t"
  shows "run_tesseract e img (failed @ lang # rest) =
           (Inr (strip t, lang), map (Recognized (prepare img)) (failed @ [lang]))"
  using assms(1,3) tesseract_loop_failed_prefix [OF assms(2), of "[]" "lang # rest"]
  by (simp add: run_tesseract_def)

lemma run_tesseract_not_found:
  assumes "pytesseract_present e"
    and "\<forall>l\<in>set failed. image_to_string e (prepare img) l (tess_config e) = TessFailed (reason l)"
    and "image_to_string e (prepare img) lang (tess_config e) = TessNotFound"
  shows "run_tesseract e img (failed @ lang # rest) =
           (Inl (OCRError (''Tesseract binary not found. Ensure Tesseract OCR is installed and ''
              @ ''available on PATH.'')),
            map (Recognized (prepare img)) (failed @ [lang]))"
  using assms(1,3) tesseract_loop_failed_prefix [OF assms(2), of "[]" "lang # rest"]
  by (simp add: run_tesseract_def)

lemma run_tesseract_all_failed:
  assumes "pytesseract_present e"
    and "\<forall>l\<in>set candidates. image_to_string e (prepare img) l (tess_config e) = TessFailed (reason l)"
  shows "run_tesseract e img candidates =
           (Inl (OCRError (''Tesseract failed for all language candidates: ''
                   @ join ''; '' (map (\<lambda>l. error_msg l (reason l)) candidates))),
            map (Recognized (prepare img)) candidates)"
  using assms(1) tesseract_loop_failed_prefix [OF assms(2), of "[]" "[]"]
  by (simp add: run_tesseract_def)

text \<open>
  Claim C8. \<open>_run_tesseract\<close> calls the recognizer on the candidate languages in their
  order. The first language on which the call returns wins: the result is its text,
  stripped, with the language code, and no later language is tried. A
  TesseractNotFoundError raises OCRError at once, and no later language is tried. When
  every candidate raises TesseractError, the OCRError raised carries the failure
  reasons of all the languages, in order, joined by "; ".
\<close>

theorem recognition_loop:
  "(pytesseract_present e1 \<and>
    (\<forall>l\<in>set failed1. image_to_string e1 (prepare img1) l (tess_config e1) = TessFailed (reason1 l)) \<and>
    image_to_string e1 (prepare img1) lang1 (tess_config e1) = TessText t \<longrightarrow>
      run_tesseract e1 img1 (failed1 @ lang1 # rest1) =
        (Inr (strip t, lang1), map (Recognized (prepare img1)) (failed1 @ [lang1])))
   \<and> (pytesseract_present e2 \<and>
      (\<forall>l\<in>set failed2. image_to_string e2 (prepare img2) l (tess_config e2) = TessFailed (reason2 l)) \<and>
      image_to_string e2 (prepare img2) lang2 (tess_config e2) = TessNotFound \<longrightarrow>
        run_tesseract e2 img2 (failed2 @ lang2 # rest2) =
          (Inl (OCRError (''Tesseract binary not found. Ensure Tesseract OCR is installed and ''
             @ ''available on PATH.'')),
           map (Recognized (prepare img2)) (failed2 @ [lang2])))
   \<and> (pytesseract_present e3 \<and>
      (\<forall>l\<in>set candidates. image_to_string e3 (prepare img3) l (tess_config e3) = TessFailed (reason3 l)) \<longrightarrow>
        run_tesseract e3 img3 candidates =
          (Inl (OCRError (''Tesseract failed for all language candidates: ''
                  @ join ''; '' (map (\<lambda>l. error_msg l (reason3 l)) candidates))),
           map (Recognized (prepare img3)) candidates))"
proof (intro conjI impI)
  show "run_tesseract e1 img1 (failed1 @ lang1 # rest1) =
        (Inr (strip t, lang1), map (Recognized (prepare img1)) (failed1 @ [lang1]))"
    if "pytesseract_present e1 \<and>
    (\<forall>l\<in>set failed1. image_to_string e1 (prepare img1) l (tess_config e1) = TessFailed (reason1 l)) \<and>
    image_to_string e1 (prepare img1) lang1 (tess_config e1) = TessText t"
    using that run_tesseract_winner [of e1 failed1 img1 reason1 lang1 t rest1] by blast
  show "run_tesseract e2 img2 (failed2 @ lang2 # rest2) =
          (Inl (OCRError (''Tesseract binary not found. Ensure Tesseract OCR is installed and ''
             @ ''available on PATH.'')),
           map (Recognized (prepare img2)) (failed2 @ [lang2]))"
    if "pytesseract_present e2 \<and>
      (\<forall>l\<in>set failed2. image_to_string e2 (prepare img2) l (tess_config e2) = TessFailed (reason2 l)) \<and>
      image_to_string e2 (prepare img2) lang2 (tess_config e2) = TessNotFound"
    using that run_tesseract_not_found [of e2 failed2 img2 reason2 lang2 rest2] by blast
  show "run_tesseract e3 img3 candidates =
          (Inl (OCRError (''Tesseract failed for all language candidates: ''
                  @ join ''; '' (map (\<lambda>l. error_msg l (reason3 l)) candidates))),
           map (Recognized (prepare img3)) candidates)"
    if "pytesseract_present e3 \<and>
      (\<forall>l\<in>set candidates. image_to_string e3 (prepare img3) l (tess_config e3) = TessFailed (reason3 l))"
    using that run_tesseract_all_failed [of e3 candidates img3 reason3] by blast
qed

theorem recognition_loop_witness:
  "run_tesseract (example_ocr_env english_only text_pdf) \<lparr>img_name = ''scan.png'', img_mode = ''P''\<rparr>
       [''vie+eng'', ''eng'', ''fra'']
     = (Inr (''Hello'', ''eng''),
        [Recognized \<lparr>img_name = ''scan.png'', img_mode = ''RGB''\<rparr> ''vie+eng'',
         Recognized \<lparr>img_name = ''scan.png'', img_mode = ''RGB''\<rparr> ''eng''])
   \<and> run_tesseract (example_ocr_env no_binary text_pdf) \<lparr>img_name = ''scan.png'', img_mode = ''P''\<rparr>
       [''vie+eng'', ''eng'']
     = (Inl (OCRError (''Tesseract binary not found. Ensure Tesseract OCR is installed and ''
              @ ''available on PATH.'')),
        [Recognized \<lparr>img_name = ''scan.png'', img_mode = ''RGB''\<rparr> ''vie+eng''])
   \<and> run_tesseract (example_ocr_env english_only text_pdf) \<lparr>img_name = ''scan.png'', img_mode = ''P''\<rparr>
       [''vie'', ''fra'']
     = (Inl (OCRError (''Tesseract failed for all language candidates: ''
               @ ''lang='' @ [CHR 0x27] @ ''vie'' @ [CHR 0x27] @ '' -> Failed loading language''
               @ ''; ''
               @ ''lang='' @ [CHR 0x27] @ ''fra'' @ [CHR 0x27] @ '' -> Failed loading language'')),
        [Recognized \<lparr>img_name = ''scan.png'', img_mode = ''RGB''\<rparr> ''vie'',
         Recognized \<lparr>img_name = ''scan.png'', img_mode = ''RGB''\<rparr> ''fra''])"
proof -
  let ?e1 = "example_ocr_env english_only text_pdf"
  let ?e2 = "example_ocr_env no_binary text_pdf"
  let ?img = "\<lparr>img_name = ''scan.png'', img_mode = ''P''\<rparr>"
  let ?reason = "\<lambda>l::string. ''Failed loading language''"
  have p: "prepare ?img = \<lparr>img_name = ''scan.png'', img_mode = ''RGB''\<rparr>"
    by (simp add: prepare_def)
  have s: "strip ''Hello '' = ''Hello''" by code_simp
  have h1: "pytesseract_present ?e1 \<and>
      (\<forall>l\<in>set [''vie+eng'']. image_to_string ?e1 (prepare ?img) l (tess_config ?e1) = TessFailed (?reason l)) \<and>
      image_to_string ?e1 (prepare ?img) ''eng'' (tess_config ?e1) = TessText ''Hello ''"
    by (simp add: example_ocr_env_def english_only_def)
  have h2: "pytesseract_present ?e2 \<and>
      (\<forall>l\<in>set []. image_to_string ?e2 (prepare ?img) l (tess_config ?e2) = TessFailed (?reason l)) \<and>
      image_to_string ?e2 (prepare ?img) ''vie+eng'' (tess_config ?e2) = TessNotFound"
    by (simp add: example_ocr_env_def no_binary_def)
  have h3: "pytesseract_present ?e1 \<and>
      (\<forall>l\<in>set [''vie'', ''fra'']. image_to_string ?e1 (prepare ?img) l (tess_config ?e1) = TessFailed (?reason l))"
    by (simp add: example_ocr_env_def english_only_def)
  note t = recognition_loop [where ?e1.0 = ?e1 and ?img1.0 = ?img and ?failed1.0 = "[''vie+eng'']"
      and ?reason1.0 = ?reason and ?lang1.0 = "''eng''" and t = "''Hello ''" and ?rest1.0 = "[''fra'']"
      and ?e2.0 = ?e2 and ?img2.0 = ?img and ?failed2.0 = "[]" and ?reason2.0 = ?reason
      and ?lang2.0 = "''vie+eng''" and ?rest2.0 = "[''eng'']"
      and ?e3.0 = ?e1 and ?img3.0 = ?img and candidates = "[''vie'', ''fra'']" and ?reason3.0 = ?reason]
  from t h1 have a1: "run_tesseract ?e1 ?img ([''vie+eng''] @ ''eng'' # [''fra'']) =
        (Inr (strip ''Hello '', ''eng''), map (Recognized (prepare ?img)) ([''vie+eng''] @ [''eng'']))"
    by blast
  from t h2 have a2: "run_tesseract ?e2 ?img ([] @ ''vie+eng'' # [''eng'']) =
          (Inl (OCRError (''Tesseract binary not found. Ensure Tesseract OCR is installed and ''
             @ ''available on PATH.'')),
           map (Recognized (prepare ?img)) ([] @ [''vie+eng'']))"
    by blast
  from t h3 have a3: "run_tesseract ?e1 ?img [''vie'', ''fra''] =
          (Inl (OCRError (''Tesseract failed for all language candidates: ''
                  @ join ''; '' (map (\<lambda>l. error_msg l (?reason l)) [''vie'', ''fra'']))),
           map (Recognized (prepare ?img)) [''vie'', ''fra''])"
    by blast
  from a1 a2 a3 show ?thesis unfolding p s by (simp add: error_msg_def)
qed

section \<open>Direct text extraction from a PDF\<close>

lemma set_join_first: "set x \<subseteq> set (join sep (x # xs))"
  by (cases xs) auto

lemma strip_join_nonempty:
  assumes "parts \<noteq> []" and "\<forall>x\<in>set parts. strip x \<noteq> []"
  shows "strip (join sep parts) \<noteq> []"
proof -
  from assms(1) obtain x xs where c: "parts = x # xs" by (cases parts) auto
  with assms(2) have "strip x \<noteq> []" by simp
  then obtain ch where "ch \<in> set x" "\<not> is_space ch" unfolding strip_nonempty_iff by blast
  with set_join_first [of x sep xs] have "\<exists>ch\<in>set (join sep parts). \<not> is_space ch"
    unfolding c by blast
  then show ?thesis unfolding strip_nonempty_iff .
qed

lemma direct_chunks_stripped: "x \<in> set (direct_chunks pages) \<Longrightarrow> strip x \<noteq> []"
proof (induction pages)
  case Nil
  then show ?case by simp
next
  case (Cons page pages)
  then show ?case
    by (auto simp: Let_def strip_strip_nonempty split: if_splits sum.splits option.splits)
qed

lemma strip_nil: "strip [] = []"
  by (simp add: strip_def)

lemma direct_chunks_nonempty_iff:
  "direct_chunks pages \<noteq> [] \<longleftrightarrow> (\<exists>page\<in>set pages. \<exists>t. page = Inr (Some t) \<and> strip t \<noteq> [])"
  by (induction pages) (auto simp: Let_def strip_nil split: sum.splits option.splits)

lemma direct_text_nonempty_iff:
  "strip (join sep (direct_chunks pages)) \<noteq> [] \<longleftrightarrow> direct_chunks pages \<noteq> []"
proof
  assume "strip (join sep (direct_chunks pages)) \<noteq> []"
  then show "direct_chunks pages \<noteq> []" by (auto simp: strip_nil)
next
  assume "direct_chunks pages \<noteq> []"
  then show "strip (join sep (direct_chunks pages)) \<noteq> []"
    using direct_chunks_stripped by (intro strip_join_nonempty) auto
qed

lemma direct_chunks_skip_failed:
  "direct_chunks (pages1 @ Inl exc # pages2) = direct_chunks (pages1 @ pages2)"
  by (induction pages1) (simp_all add: Let_def strip_nil)

lemma direct_pdf_text_found:
  assumes "PdfReader e = Some reader" and "reader p = Inr pages"
    and "\<exists>page\<in>set pages. \<exists>t. page = Inr (Some t) \<and> strip t \<noteq> []"
  shows "direct_pdf_text e p =
           Some \<lparr>ocr_text = strip (join [CHR 0x0A, CHR 0x0A] (direct_chunks pages)),
                 ocr_metadata =
                   [''engine'' \<mapsto> MStr ''pypdf'',
                    ''source'' \<mapsto> MStr ''pdf_text'',
                    ''page_count'' \<mapsto> MInt (int (length pages)),
                    ''used_ocr'' \<mapsto> MBool False]\<rparr>"
proof -
  from assms(3) have "strip (join [CHR 0x0A, CHR 0x0A] (direct_chunks pages)) \<noteq> []"
    unfolding direct_text_nonempty_iff direct_chunks_nonempty_iff .
  then show ?thesis using assms(1,2) by (simp add: direct_pdf_text_def Let_def)
qed

lemma direct_pdf_text_none:
  assumes "direct_pdf_text e p = None"
  shows "case PdfReader e of
           None \<Rightarrow> True
         | Some reader \<Rightarrow>
             (case reader p of
                Inl exc \<Rightarrow> True
              | Inr pages \<Rightarrow> \<forall>page\<in>set pages. \<forall>t. page = Inr (Some t) \<longrightarrow> strip t = [])"
proof (cases "PdfReader e")
  case None
  then show ?thesis by simp
next
  case (Some reader)
  show ?thesis
  proof (cases "reader p")
    case (Inl exc)
    with Some show ?thesis by simp
  next
    case (Inr pages)
    with Some assms have "strip (join [CHR 0x0A, CHR 0x0A] (direct_chunks pages)) = []"
      by (simp add: direct_pdf_text_def Let_def split: if_splits)
    then have "direct_chunks pages = []" using direct_text_nonempty_iff by blast
    then have "\<forall>page\<in>set pages. \<forall>t. page = Inr (Some t) \<longrightarrow> strip t = []"
      using direct_chunks_nonempty_iff by blast
    with Some Inr show ?thesis by simp
  qed
qed

lemma extract_from_pdf_events:
  "snd (extract_from_pdf e p languages) \<noteq> [] \<Longrightarrow> direct_pdf_text e p = None"
  by (auto simp: extract_from_pdf_def split: option.splits)

lemma extract_text_pdf:
  assumes "path_exists e p" and "ensure_dependencies e p = None" and "lower (path_suffix p) = ''.pdf''"
  shows "extract_text e p languages = extract_from_pdf e p languages"
  using assms
  by (simp add: extract_text_def Let_def SUPPORTED_IMAGE_EXTENSIONS_def SUPPORTED_PDF_EXTENSIONS_def)

text \<open>
  Claim C7. When the PDF reader opens the file and at least one page yields text that is
  not all whitespace, \<open>_extract_from_pdf\<close> returns the joined page texts, which are not
  empty, with source "pdf_text" and \<open>used_ocr\<close> false, and makes no call to the
  rasterizer or the recognizer; so does \<open>extract_text\<close> on an existing \<open>.pdf\<close> file
  when the dependency check passes. A page whose extraction raises contributes nothing.
  The fallback is entered (some call is made) only if the reader is not installed, or
  failed, or no page has text that is not all whitespace.
\<close>

theorem pdf_direct_text_first:
  "(PdfReader e = Some reader \<and> reader p = Inr pages \<and>
    (\<exists>page\<in>set pages. \<exists>t. page = Inr (Some t) \<and> strip t \<noteq> []) \<longrightarrow>
      extract_from_pdf e p languages =
        (Inr \<lparr>ocr_text = strip (join [CHR 0x0A, CHR 0x0A] (direct_chunks pages)),
              ocr_metadata =
                [''engine'' \<mapsto> MStr ''pypdf'',
                 ''source'' \<mapsto> MStr ''pdf_text'',
                 ''page_count'' \<mapsto> MInt (int (length pages)),
                 ''used_ocr'' \<mapsto> MBool False]\<rparr>, []) \<and>
      strip (join [CHR 0x0A, CHR 0x0A] (direct_chunks pages)) \<noteq> [] \<and>
      (path_exists e p \<and> ensure_dependencies e p = None \<and> lower (path_suffix p) = ''.pdf'' \<longrightarrow>
         extract_text e p languages =
           (Inr \<lparr>ocr_text = strip (join [CHR 0x0A, CHR 0x0A] (direct_chunks pages)),
                 ocr_metadata =
                   [''engine'' \<mapsto> MStr ''pypdf'',
                    ''source'' \<mapsto> MStr ''pdf_text'',
                    ''page_count'' \<mapsto> MInt (int (length pages)),
                    ''used_ocr'' \<mapsto> MBool False]\<rparr>, [])))
   \<and> direct_chunks (pages1 @ Inl exc # pages2) = direct_chunks (pages1 @ pages2)
   \<and> (snd (extract_from_pdf e2 p2 languages2) \<noteq> [] \<longrightarrow>
        (case PdfReader e2 of
           None \<Rightarrow> True
         | Some reader2 \<Rightarrow>
             (case reader2 p2 of
                Inl exc2 \<Rightarrow> True
              | Inr pages \<Rightarrow> \<forall>page\<in>set pages. \<forall>t. page = Inr (Some t) \<longrightarrow> strip t = [])))"
proof (intro conjI impI)
  assume a: "PdfReader e = Some reader \<and> reader p = Inr pages \<and>
    (\<exists>page\<in>set pages. \<exists>t. page = Inr (Some t) \<and> strip t \<noteq> [])"
  then have d: "direct_pdf_text e p =
           Some \<lparr>ocr_text = strip (join [CHR 0x0A, CHR 0x0A] (direct_chunks pages)),
                 ocr_metadata =
                   [''engine'' \<mapsto> MStr ''pypdf'',
                    ''source'' \<mapsto> MStr ''pdf_text'',
                    ''page_count'' \<mapsto> MInt (int (length pages)),
                    ''used_ocr'' \<mapsto> MBool False]\<rparr>"
    using direct_pdf_text_found [of e reader p pages] by blast
  then show r: "extract_from_pdf e p languages =
        (Inr \<lparr>ocr_text = strip (join [CHR 0x0A, CHR 0x0A] (direct_chunks pages)),
              ocr_metadata =
                [''engine'' \<mapsto> MStr ''pypdf'',
                 ''source'' \<mapsto> MStr ''pdf_text'',
                 ''page_count'' \<mapsto> MInt (int (length pages)),
                 ''used_ocr'' \<mapsto> MBool False]\<rparr>, [])"
    by (simp add: extract_from_pdf_def)
  from a show "strip (join [CHR 0x0A, CHR 0x0A] (direct_chunks pages)) \<noteq> []"
    unfolding direct_text_nonempty_iff direct_chunks_nonempty_iff by blast
  show "extract_text e p languages =
           (Inr \<lparr>ocr_text = strip (join [CHR 0x0A, CHR 0x0A] (direct_chunks pages)),
                 ocr_metadata =
                   [''engine'' \<mapsto> MStr ''pypdf'',
                    ''source'' \<mapsto> MStr ''pdf_text'',
                    ''page_count'' \<mapsto> MInt (int (length pages)),
                    ''used_ocr'' \<mapsto> MBool False]\<rparr>, [])"
    if "path_exists e p \<and> ensure_dependencies e p = None \<and> lower (path_suffix p) = ''.pdf''"
    using that r extract_text_pdf [of e p languages] by simp
next
  show "direct_chunks (pages1 @ Inl exc # pages2) = direct_chunks (pages1 @ pages2)"
    by (rule direct_chunks_skip_failed)
next
  assume "snd (extract_from_pdf e2 p2 languages2) \<noteq> []"
  then have "direct_pdf_text e2 p2 = None" by (rule extract_from_pdf_events)
  then show "case PdfReader e2 of
           None \<Rightarrow> True
         | Some reader2 \<Rightarrow>
             (case reader2 p2 of
                Inl exc2 \<Rightarrow> True
              | Inr pages \<Rightarrow> \<forall>page\<in>set pages. \<forall>t. page = Inr (Some t) \<longrightarrow> strip t = [])"
    by (rule direct_pdf_text_none)
qed

theorem pdf_direct_text_first_witness:
  "extract_text (example_ocr_env english_only text_pdf) example_pdf None =
     (Inr \<lparr>ocr_text = ''Chapter 1'',
           ocr_metadata =
             [''engine'' \<mapsto> MStr ''pypdf'',
              ''source'' \<mapsto> MStr ''pdf_text'',
              ''page_count'' \<mapsto> MInt 3,
              ''used_ocr'' \<mapsto> MBool False]\<rparr>, [])
   \<and> hd (snd (extract_from_pdf (example_ocr_env english_only scanned_pdf) example_pdf None))
       = Rasterized example_pdf
   \<and> strip '' '' = []"
proof -
  let ?e = "example_ocr_env english_only text_pdf"
  let ?e2 = "example_ocr_env english_only scanned_pdf"
  let ?pages = "[Inl ''broken page'', Inr (Some '' Chapter 1 ''), Inr None] :: pdf_page list"
  have s: "strip '' Chapter 1 '' = ''Chapter 1''" by code_simp
  have h1: "PdfReader ?e = Some text_pdf \<and> text_pdf example_pdf = Inr ?pages \<and>
      (\<exists>page\<in>set ?pages. \<exists>t. page = Inr (Some t) \<and> strip t \<noteq> [])"
    by (simp add: example_ocr_env_def text_pdf_def s)
  have h2: "path_exists ?e example_pdf \<and> ensure_dependencies ?e example_pdf = None \<and>
      lower (path_suffix example_pdf) = ''.pdf''"
    by code_simp
  have tx: "strip (join [CHR 0x0A, CHR 0x0A] (direct_chunks ?pages)) = ''Chapter 1''" by code_simp
  have ev: "snd (extract_from_pdf ?e2 example_pdf None) \<noteq> []" by code_simp
  have hd: "hd (snd (extract_from_pdf ?e2 example_pdf None)) = Rasterized example_pdf" by code_simp
  have rd: "PdfReader ?e2 = Some scanned_pdf" by (simp add: example_ocr_env_def)
  have sp: "scanned_pdf example_pdf = Inr [Inr (Some '' ''), Inr None]" by (simp add: scanned_pdf_def)
  note t = pdf_direct_text_first [where e = ?e and reader = text_pdf and p = example_pdf
      and pages = ?pages and languages = None and ?e2.0 = ?e2 and ?p2.0 = example_pdf
      and ?languages2.0 = None]
  from t h1 h2 have a1: "extract_text ?e example_pdf None =
           (Inr \<lparr>ocr_text = strip (join [CHR 0x0A, CHR 0x0A] (direct_chunks ?pages)),
                 ocr_metadata =
                   [''engine'' \<mapsto> MStr ''pypdf'',
                    ''source'' \<mapsto> MStr ''pdf_text'',
                    ''page_count'' \<mapsto> MInt (int (length ?pages)),
                    ''used_ocr'' \<mapsto> MBool False]\<rparr>, [])"
    by blast
  note c3 = t [THEN conjunct2, THEN conjunct2, rule_format, OF ev]
  have a2: "\<forall>page\<in>set ([Inr (Some '' ''), Inr None] :: pdf_page list).
         \<forall>t. page = Inr (Some t) \<longrightarrow> strip t = []"
    using c3 unfolding rd option.case sp sum.case .
  have ln: "int (length ?pages) = 3" by simp
  from a1 have a1': "extract_text ?e example_pdf None =
     (Inr \<lparr>ocr_text = ''Chapter 1'',
           ocr_metadata =
             [''engine'' \<mapsto> MStr ''pypdf'',
              ''source'' \<mapsto> MStr ''pdf_text'',
              ''page_count'' \<mapsto> MInt 3,
              ''used_ocr'' \<mapsto> MBool False]\<rparr>, [])"
    unfolding tx ln .
  from a2 have a2': "strip '' '' = []" by simp
  from a1' hd a2' show ?thesis by (intro conjI)
qed

section \<open>What extract_text returns and raises\<close>

lemma recognition_ran_simps:
  "recognition_ran [] = False"
  "recognition_ran (Recognized img lang # evs) = True"
  "recognition_ran (Rasterized p # evs) = recognition_ran evs"
  "recognition_ran (Closed img # evs) = recognition_ran evs"
  "recognition_ran (evs1 @ evs2) = (recognition_ran evs1 \<or> recognition_ran evs2)"
  by (auto simp: recognition_ran_def list_ex_iff)

lemma tesseract_loop_success:
  "tesseract_loop e p errors cands = (Inr r, evs) \<Longrightarrow> recognition_ran evs"
proof (induction cands arbitrary: errors evs)
  case Nil
  then show ?case by simp
next
  case (Cons lang cands)
  show ?case
  proof (cases "image_to_string e p lang (tess_config e)")
    case (TessText t)
    with Cons.prems show ?thesis by (auto simp: recognition_ran_simps)
  next
    case TessNotFound
    with Cons.prems show ?thesis by simp
  next
    case (TessFailed exc)
    with Cons.prems show ?thesis by (auto simp: recognition_ran_simps split: prod.splits)
  next
    case (TessRaised exc)
    with Cons.prems show ?thesis by simp
  qed
qed

lemma run_tesseract_success:
  "run_tesseract e img cands = (Inr r, evs) \<Longrightarrow> recognition_ran evs"
  by (auto simp: run_tesseract_def split: if_splits dest: tesseract_loop_success)

lemma ocr_pages_success:
  assumes "ocr_pages e cands images = (Inr r, evs)" and "images \<noteq> []"
  shows "recognition_ran evs"
proof -
  from assms(2) obtain img imgs where c: "images = img # imgs" by (cases images) auto
  obtain res1 evs1 where r1: "run_tesseract e img cands = (res1, evs1)"
    by (cases "run_tesseract e img cands")
  obtain res2 evs2 where r2: "ocr_pages e cands imgs = (res2, evs2)"
    by (cases "ocr_pages e cands imgs")
  from assms(1) c r1 r2 obtain x where x: "res1 = Inr x" and evs: "evs = evs1 @ evs2"
    by (auto split: sum.splits prod.splits)
  from run_tesseract_success [of e img cands x evs1] r1 x have "recognition_ran evs1" by simp
  then show ?thesis unfolding evs by (simp add: recognition_ran_simps)
qed

lemma extract_from_image_success:
  assumes "extract_from_image e p languages = (Inr res, evs)"
  shows "ocr_metadata res ''used_ocr'' = Some (MBool True) \<and>
         recognition_ran evs"
proof -
  from assms obtain img where io: "image_open e p = Inr img"
    by (auto simp: extract_from_image_def Let_def split: sum.splits)
  obtain r evs1 where rt: "run_tesseract e img (resolve_language_attempts e languages) = (r, evs1)"
    by (cases "run_tesseract e img (resolve_language_attempts e languages)")
  from assms io rt obtain tx used_lang where
    r: "r = Inr (tx, used_lang)" and evs: "evs = evs1 @ [Closed img]"
    and res: "res = \<lparr>ocr_text = tx,
                     ocr_metadata =
                       [''engine'' \<mapsto> MStr ''tesseract'',
                        ''source'' \<mapsto> MStr ''image'',
                        ''languages'' \<mapsto> MStr used_lang,
                        ''used_ocr'' \<mapsto> MBool True]\<rparr>"
    by (auto simp: extract_from_image_def Let_def split: sum.splits prod.splits)
  from run_tesseract_success rt r have "recognition_ran evs1" by blast
  then show ?thesis unfolding evs res by (simp add: recognition_ran_simps)
qed

lemma direct_pdf_text_some:
  "direct_pdf_text e p = Some res \<Longrightarrow>
     ocr_metadata res ''used_ocr'' = Some (MBool False) \<and> ocr_text res \<noteq> []"
  by (auto simp: direct_pdf_text_def Let_def split: option.splits sum.splits if_splits)

lemma extract_from_pdf_success:
  assumes "extract_from_pdf e p languages = (Inr res, evs)"
  shows "(ocr_metadata res ''used_ocr'' = Some (MBool False) \<and> evs = [] \<and> ocr_text res \<noteq> [])
         \<or> (ocr_metadata res ''used_ocr'' = Some (MBool True) \<and>
             recognition_ran evs)"
proof (cases "direct_pdf_text e p")
  case (Some r)
  with assms have "res = r" "evs = []" by (simp_all add: extract_from_pdf_def)
  with direct_pdf_text_some [OF Some] show ?thesis by simp
next
  case None
  from assms None obtain convert images where
    cv: "convert_from_path e = Some convert" and im: "convert p (PDF_DPI e) = Inr images"
    and ne: "images \<noteq> []"
    by (auto simp: extract_from_pdf_def split: option.splits sum.splits if_splits)
  obtain r evs1 where op: "ocr_pages e (resolve_language_attempts e languages) images = (r, evs1)"
    by (cases "ocr_pages e (resolve_language_attempts e languages) images")
  from assms None cv im ne op obtain x where
    r: "r = Inr x" and evs: "evs = Rasterized p # evs1 @ map Closed images"
    and uo: "ocr_metadata res ''used_ocr'' = Some (MBool True)"
    by (auto simp: extract_from_pdf_def Let_def split: sum.splits prod.splits)
  from ocr_pages_success [of e _ images x evs1] op r ne
  have "recognition_ran evs1" by blast
  then show ?thesis using uo unfolding evs by (simp add: recognition_ran_simps)
qed

lemma extract_text_success:
  assumes "extract_text e p languages = (Inr res, evs)"
  shows "\<exists>b. ocr_metadata res ''used_ocr'' = Some (MBool b) \<and>
             b = recognition_ran evs \<and>
             (\<not> b \<longrightarrow> ocr_text res \<noteq> [])"
proof -
  from assms have "extract_from_image e p languages = (Inr res, evs)
      \<or> extract_from_pdf e p languages = (Inr res, evs)"
    by (auto simp: extract_text_def Let_def split: if_splits option.splits)
  then show ?thesis
  proof
    assume "extract_from_image e p languages = (Inr res, evs)"
    from extract_from_image_success [OF this] show ?thesis by auto
  next
    assume "extract_from_pdf e p languages = (Inr res, evs)"
    from extract_from_pdf_success [OF this] show ?thesis by (auto simp: recognition_ran_simps)
  qed
qed

lemma tesseract_loop_error:
  assumes "\<And>img lang cfg m. image_to_string e img lang cfg \<noteq> TessRaised m"
  shows "tesseract_loop e p errors cands = (Inl err, evs) \<Longrightarrow> \<exists>m. err = OCRError m"
proof (induction cands arbitrary: errors evs)
  case Nil
  then show ?case by auto
next
  case (Cons lang cands)
  show ?case
  proof (cases "image_to_string e p lang (tess_config e)")
    case (TessText t)
    with Cons.prems show ?thesis by simp
  next
    case TessNotFound
    with Cons.prems show ?thesis by auto
  next
    case (TessFailed exc)
    with Cons.prems Cons.IH show ?thesis by (auto split: prod.splits)
  next
    case (TessRaised exc)
    with assms show ?thesis by blast
  qed
qed

lemma run_tesseract_error:
  assumes "\<And>img lang cfg m. image_to_string e img lang cfg \<noteq> TessRaised m"
    and "run_tesseract e img cands = (Inl err, evs)"
  shows "\<exists>m. err = OCRError m"
  using assms(2) tesseract_loop_error [OF assms(1)]
  by (auto simp: run_tesseract_def split: if_splits)

lemma ocr_pages_error:
  assumes "\<And>img lang cfg m. image_to_string e img lang cfg \<noteq> TessRaised m"
  shows "ocr_pages e cands images = (Inl err, evs) \<Longrightarrow> \<exists>m. err = OCRError m"
proof (induction images arbitrary: evs)
  case Nil
  then show ?case by simp
next
  case (Cons img imgs)
  obtain res1 evs1 where r1: "run_tesseract e img cands = (res1, evs1)"
    by (cases "run_tesseract e img cands")
  obtain res2 evs2 where r2: "ocr_pages e cands imgs = (res2, evs2)"
    by (cases "ocr_pages e cands imgs")
  from Cons.prems r1 r2 have "res1 = Inl err \<or> res2 = Inl err"
    by (auto split: sum.splits prod.splits)
  then show ?case
  proof
    assume "res1 = Inl err"
    with r1 run_tesseract_error [OF assms] show ?thesis by blast
  next
    assume "res2 = Inl err"
    with r2 Cons.IH show ?thesis by blast
  qed
qed

lemma extract_from_image_error:
  assumes "\<And>img lang cfg m. image_to_string e img lang cfg \<noteq> TessRaised m"
    and "\<And>q m. image_open e q \<noteq> Inl m"
    and "extract_from_image e p languages = (Inl err, evs)"
  shows "\<exists>m. err = OCRError m"
proof -
  from assms(2) obtain img where io: "image_open e p = Inr img"
    by (cases "image_open e p") auto
  obtain r evs1 where rt: "run_tesseract e img (resolve_language_attempts e languages) = (r, evs1)"
    by (cases "run_tesseract e img (resolve_language_attempts e languages)")
  from assms(3) io rt have "r = Inl err"
    by (auto simp: extract_from_image_def Let_def split: sum.splits prod.splits)
  with rt run_tesseract_error [OF assms(1)] show ?thesis by blast
qed

lemma extract_from_pdf_error:
  assumes "\<And>img lang cfg m. image_to_string e img lang cfg \<noteq> TessRaised m"
    and "\<And>c q dpi m. convert_from_path e = Some c \<Longrightarrow> c q dpi \<noteq> Inl m"
    and "extract_from_pdf e p languages = (Inl err, evs)"
  shows "\<exists>m. err = OCRError m"
proof -
  from assms(3) have d: "direct_pdf_text e p = None"
    by (auto simp: extract_from_pdf_def split: option.splits)
  show ?thesis
  proof (cases "convert_from_path e")
    case None
    with assms(3) d show ?thesis by (auto simp: extract_from_pdf_def)
  next
    case (Some convert)
    with assms(2) obtain images where im: "convert p (PDF_DPI e) = Inr images"
      by (cases "convert p (PDF_DPI e)") auto
    show ?thesis
    proof (cases "images = []")
      case True
      with assms(3) d Some im show ?thesis by (auto simp: extract_from_pdf_def)
    next
      case False
      obtain r evs1 where op: "ocr_pages e (resolve_language_attempts e languages) images = (r, evs1)"
        by (cases "ocr_pages e (resolve_language_attempts e languages) images")
      from assms(3) d Some im False op have "r = Inl err"
        by (auto simp: extract_from_pdf_def Let_def split: sum.splits prod.splits)
      with op ocr_pages_error [OF assms(1)] show ?thesis by blast
    qed
  qed
qed

lemma extract_text_error:
  assumes "\<And>img lang cfg m. image_to_string e img lang cfg \<noteq> TessRaised m"
    and "\<And>q m. image_open e q \<noteq> Inl m"
    and "\<And>c q dpi m. convert_from_path e = Some c \<Longrightarrow> c q dpi \<noteq> Inl m"
    and "extract_text e p languages = (Inl err, evs)"
  shows "(\<exists>m. err = OCRError m) \<or> (\<exists>m. err = FileNotFoundError m)"
proof (cases "path_exists e p")
  case False
  with assms(4) show ?thesis by (auto simp: extract_text_def)
next
  case True
  show ?thesis
  proof (cases "ensure_dependencies e p")
    case (Some derr)
    then have "\<exists>m. derr = OCRError m"
      by (auto simp: ensure_dependencies_def Let_def split: if_splits)
    with assms(4) True Some show ?thesis by (auto simp: extract_text_def)
  next
    case None
    with assms(4) True have
      "extract_from_image e p languages = (Inl err, evs)
       \<or> extract_from_pdf e p languages = (Inl err, evs)
       \<or> (\<exists>m. err = OCRError m)"
      by (auto simp: extract_text_def Let_def split: if_splits)
    moreover have "\<exists>m. err = OCRError m" if "extract_from_image e p languages = (Inl err, evs)"
      using that assms(1,2) by (rule extract_from_image_error [rotated 2])
    moreover have "\<exists>m. err = OCRError m" if "extract_from_pdf e p languages = (Inl err, evs)"
      using that assms(1,3) by (rule extract_from_pdf_error [rotated 2])
    ultimately show ?thesis by blast
  qed
qed

text \<open>
  Claim C6, as amended. When \<open>extract_text\<close> returns, the \<open>used_ocr\<close> flag of the result
  is true exactly when the recognizer was called, and a result that did not come from
  the recognizer (direct PDF text) has non-empty text; a result of the recognizer may
  have empty text. When \<open>extract_text\<close> raises and no call of the imaging libraries
  raised an exception of its own, the exception is OCRError or FileNotFoundError; it is
  FileNotFoundError when the path does not exist.
\<close>

theorem extract_text_result:
  "(extract_text e p languages = (Inr res, evs) \<longrightarrow>
      (\<exists>b. ocr_metadata res ''used_ocr'' = Some (MBool b) \<and>
           b = recognition_ran evs \<and>
           (\<not> b \<longrightarrow> ocr_text res \<noteq> [])))
   \<and> (extract_text e2 p2 languages2 = (Inl err, evs2) \<and>
      (\<forall>img lang cfg m. image_to_string e2 img lang cfg \<noteq> TessRaised m) \<and>
      (\<forall>q m. image_open e2 q \<noteq> Inl m) \<and>
      (\<forall>c q dpi m. convert_from_path e2 = Some c \<longrightarrow> c q dpi \<noteq> Inl m) \<longrightarrow>
        (\<exists>m. err = OCRError m) \<or> (\<exists>m. err = FileNotFoundError m))
   \<and> (\<not> path_exists e3 p3 \<longrightarrow>
        extract_text e3 p3 languages3 = (Inl (FileNotFoundError (''File not found: '' @ path_str p3)), []))"
proof (intro conjI impI)
  show "\<exists>b. ocr_metadata res ''used_ocr'' = Some (MBool b) \<and>
           b = recognition_ran evs \<and>
           (\<not> b \<longrightarrow> ocr_text res \<noteq> [])"
    if "extract_text e p languages = (Inr res, evs)" using that by (rule extract_text_success)
  show "(\<exists>m. err = OCRError m) \<or> (\<exists>m. err = FileNotFoundError m)"
    if "extract_text e2 p2 languages2 = (Inl err, evs2) \<and>
      (\<forall>img lang cfg m. image_to_string e2 img lang cfg \<noteq> TessRaised m) \<and>
      (\<forall>q m. image_open e2 q \<noteq> Inl m) \<and>
      (\<forall>c q dpi m. convert_from_path e2 = Some c \<longrightarrow> c q dpi \<noteq> Inl m)"
    using that extract_text_error [of e2 p2 languages2 err evs2] by blast
  show "extract_text e3 p3 languages3 = (Inl (FileNotFoundError (''File not found: '' @ path_str p3)), [])"
    if "\<not> path_exists e3 p3" using that by (simp add: extract_text_def)
qed

theorem extract_text_result_witness:
  "ocr_metadata (projr (fst (extract_text (example_ocr_env english_only scanned_pdf) example_pdf None)))
       ''used_ocr'' = Some (MBool True)
   \<and> recognition_ran (snd (extract_text (example_ocr_env english_only scanned_pdf) example_pdf None))
   \<and> ocr_metadata (projr (fst (extract_text (example_ocr_env english_only text_pdf) example_pdf None)))
       ''used_ocr'' = Some (MBool False)
   \<and> \<not> recognition_ran (snd (extract_text (example_ocr_env english_only text_pdf) example_pdf None))
   \<and> ocr_text (projr (fst (extract_text (example_ocr_env english_only text_pdf) example_pdf None))) \<noteq> []
   \<and> fst (extract_text (example_ocr_env no_binary scanned_pdf) example_pdf None)
       = Inl (OCRError (''Tesseract binary not found. Ensure Tesseract OCR is installed and ''
               @ ''available on PATH.''))
   \<and> extract_text ((example_ocr_env english_only text_pdf)\<lparr>path_exists := (\<lambda>p. False)\<rparr>) example_png None
       = (Inl (FileNotFoundError ''File not found: scan.PNG''), [])"
proof -
  let ?x = "extract_text (example_ocr_env english_only scanned_pdf) example_pdf None"
  let ?z = "extract_text (example_ocr_env english_only text_pdf) example_pdf None"
  let ?e2 = "example_ocr_env no_binary scanned_pdf"
  let ?y = "extract_text ?e2 example_pdf None"
  let ?e3 = "(example_ocr_env english_only text_pdf)\<lparr>path_exists := (\<lambda>p. False)\<rparr>"
  let ?err = "OCRError (''Tesseract binary not found. Ensure Tesseract OCR is installed and ''
               @ ''available on PATH.'')"
  have "\<not> isl (fst ?x)" by code_simp
  then have hx: "?x = (Inr (projr (fst ?x)), snd ?x)" by (simp add: prod_eq_iff)
  have "\<not> isl (fst ?z)" by code_simp
  then have hz: "?z = (Inr (projr (fst ?z)), snd ?z)" by (simp add: prod_eq_iff)
  have ux: "ocr_metadata (projr (fst ?x)) ''used_ocr'' = Some (MBool True)" by code_simp
  have uz: "ocr_metadata (projr (fst ?z)) ''used_ocr'' = Some (MBool False)" by code_simp
  have "map_sum id ocr_text (fst ?y) = Inl ?err" by code_simp
  then have fy: "fst ?y = Inl ?err" by (cases "fst ?y") simp_all
  then have hy: "?y = (Inl ?err, snd ?y)" by (simp add: prod_eq_iff)
  have n1: "\<forall>img lang cfg m. image_to_string ?e2 img lang cfg \<noteq> TessRaised m"
    by (simp add: example_ocr_env_def no_binary_def)
  have n2: "\<forall>q m. image_open ?e2 q \<noteq> Inl m" by (simp add: example_ocr_env_def)
  have n3: "\<forall>c q dpi m. convert_from_path ?e2 = Some c \<longrightarrow> c q dpi \<noteq> Inl m"
    by (auto simp: example_ocr_env_def)
  have n4: "\<not> path_exists ?e3 example_png" by simp
  have ps: "path_str example_png = ''scan.PNG''" by (simp add: example_png_def)
  note t = extract_text_result [where e = "example_ocr_env english_only scanned_pdf" and p = example_pdf
      and languages = None and res = "projr (fst ?x)" and evs = "snd ?x"
      and ?e2.0 = ?e2 and ?p2.0 = example_pdf and ?languages2.0 = None and err = ?err
      and ?evs2.0 = "snd ?y" and ?e3.0 = ?e3 and ?p3.0 = example_png and ?languages3.0 = None]
  note t' = extract_text_result [where e = "example_ocr_env english_only text_pdf" and p = example_pdf
      and languages = None and res = "projr (fst ?z)" and evs = "snd ?z", THEN conjunct1]
  from t [THEN conjunct1] hx ux have a1: "recognition_ran (snd ?x)" by auto
  from t' hz uz have a2: "\<not> recognition_ran (snd ?z) \<and> ocr_text (projr (fst ?z)) \<noteq> []" by auto
  from t [THEN conjunct2, THEN conjunct1] hy n1 n2 n3
  have a3: "(\<exists>m. ?err = OCRError m) \<or> (\<exists>m. ?err = FileNotFoundError m)" by blast
  from t [THEN conjunct2, THEN conjunct2] n4
  have a4: "extract_text ?e3 example_png None = (Inl (FileNotFoundError ''File not found: scan.PNG''), [])"
    unfolding ps by simp
  from ux a1 uz a2 fy a4 show ?thesis by (intro conjI) simp_all
qed

text \<open>The claim as stated fails on a page on which the recognizer finds nothing: the
  call returns, and the text of the result is empty, for an image as for a scanned PDF.\<close>

theorem empty_text_counterexample:
  "map_sum id ocr_text (fst (extract_text (example_ocr_env blank_page text_pdf) example_png None)) = Inr []
   \<and> map_sum id ocr_text (fst (extract_text (example_ocr_env blank_page scanned_pdf) example_pdf None)) = Inr []"
  by code_simp

end
